theory Spec2Isabelle
  imports Main "HOL-Library.AList"
begin

section \<open>JSON values and the Python operations the module applies to them\<close>

text \<open>
  The module \<^verbatim>\<open>mitreattack/collections/stix_to_collection.py\<close> works on the result of
  \<^verbatim>\<open>json.load\<close>: nested Python dictionaries, lists, strings, numbers, booleans and
  \<^verbatim>\<open>None\<close>. A dictionary is an association list in insertion order (keys of a Python
  dictionary are distinct; lookups read the first binding). Numbers are the integers;
  non-integral JSON numbers are not part of the model. A character of a \<^typ>\<open>string\<close>
  stands for one character of a Python \<^verbatim>\<open>str\<close>.
\<close>

datatype json =
    JNull
  | JBool bool
  | JInt int
  | JStr string
  | JList "json list"
  | JDict "(string \<times> json) list"

text \<open>
  The exceptions that can leave the code: \<^verbatim>\<open>KeyError\<close> carries the missing key;
  \<open>LibraryError\<close> stands for any exception raised inside the \<^verbatim>\<open>stix2elevator\<close>
  library. All of them are subclasses of \<^verbatim>\<open>Exception\<close>.
\<close>

datatype py_exc =
    KeyError string
  | TypeError
  | AttributeError
  | LibraryError string

text \<open>
  Python's \<^verbatim>\<open>==\<close> on these values: \<^verbatim>\<open>True == 1\<close> and \<^verbatim>\<open>False == 0\<close> hold, lists are
  compared element by element, dictionaries key by key whatever their order, and values
  of different kinds are otherwise unequal.
\<close>

fun py_eq :: "json \<Rightarrow> json \<Rightarrow> bool" where
  "py_eq JNull JNull = True"
| "py_eq (JBool a) (JBool b) = (a = b)"
| "py_eq (JBool a) (JInt j) = ((if a then 1 else 0) = j)"
| "py_eq (JInt i) (JBool b) = (i = (if b then 1 else 0))"
| "py_eq (JInt i) (JInt j) = (i = j)"
| "py_eq (JStr s) (JStr t) = (s = t)"
| "py_eq (JList xs) (JList ys) = list_all2 py_eq xs ys"
| "py_eq (JDict xs) (JDict ys) =
     (length xs = length ys \<and>
      list_all (\<lambda>kv. case map_of ys (fst kv) of None \<Rightarrow> False
                     | Some w \<Rightarrow> py_eq (snd kv) w) xs)"
| "py_eq _ _ = False"

text \<open>\<^verbatim>\<open>x in xs\<close> for a list \<open>xs\<close>.\<close>

definition py_in :: "json \<Rightarrow> json list \<Rightarrow> bool" where
  "py_in x xs = list_ex (\<lambda>y. py_eq y x) xs"

text \<open>\<^verbatim>\<open>x[key]\<close> with a string key: only a dictionary accepts it.\<close>

fun py_getitem :: "json \<Rightarrow> string \<Rightarrow> py_exc + json" where
  "py_getitem (JDict kvs) key =
     (case map_of kvs key of None \<Rightarrow> Inl (KeyError key) | Some v \<Rightarrow> Inr v)"
| "py_getitem _ key = Inl TypeError"

text \<open>\<^verbatim>\<open>x.get(key, default)\<close>: only a dictionary has the method.\<close>

fun py_get :: "json \<Rightarrow> string \<Rightarrow> json \<Rightarrow> py_exc + json" where
  "py_get (JDict kvs) key dflt =
     (case map_of kvs key of None \<Rightarrow> Inr dflt | Some v \<Rightarrow> Inr v)"
| "py_get _ key dflt = Inl AttributeError"

text \<open>\<^verbatim>\<open>x.keys()\<close>.\<close>

fun py_keys :: "json \<Rightarrow> py_exc + string list" where
  "py_keys (JDict kvs) = Inr (map fst kvs)"
| "py_keys _ = Inl AttributeError"

text \<open>
  \<^verbatim>\<open>for v in x\<close>: a list yields its elements, a string its characters (as strings of
  length one), a dictionary its keys; nothing else is iterable.
\<close>

fun py_iter :: "json \<Rightarrow> py_exc + json list" where
  "py_iter (JList xs) = Inr xs"
| "py_iter (JStr s) = Inr (map (\<lambda>c. JStr [c]) s)"
| "py_iter (JDict kvs) = Inr (map (\<lambda>kv. JStr (fst kv)) kvs)"
| "py_iter _ = Inl TypeError"

text \<open>\<^verbatim>\<open>x.insert(0, v)\<close>: only a list has the method.\<close>

fun py_insert0 :: "json \<Rightarrow> json \<Rightarrow> py_exc + json" where
  "py_insert0 (JList xs) v = Inr (JList (v # xs))"
| "py_insert0 _ v = Inl AttributeError"

text \<open>
  The value of a dictionary after the container stored under \<open>key\<close> has been mutated
  into \<open>v\<close>: the binding is replaced in place.
\<close>

fun with_item :: "json \<Rightarrow> string \<Rightarrow> json \<Rightarrow> json" where
  "with_item (JDict kvs) key v = JDict (AList.update key v kvs)"
| "with_item x key v = x"

section \<open>The environment: clock, identifiers, the elevator library\<close>

text \<open>
  A naive \<^verbatim>\<open>datetime\<close> (no time zone attached) and
  \<^verbatim>\<open>strftime("%Y-%m-%dT%H:%M:%S.%fZ")\<close>. Every directive prints a fixed number of
  decimal digits (the fields of a \<^verbatim>\<open>datetime\<close> are always in range: years below
  10000, months below 13, and so on); the \<^verbatim>\<open>Z\<close> is a literal of the format.
\<close>

record datetime =
  year :: nat
  month :: nat
  day :: nat
  hour :: nat
  minute :: nat
  second :: nat
  microsecond :: nat

definition digit :: "nat \<Rightarrow> char" where
  "digit d = ''0123456789'' ! (d mod 10)"

primrec digits :: "nat \<Rightarrow> nat \<Rightarrow> string" where
  "digits 0 n = []"
| "digits (Suc w) n = digits w (n div 10) @ [digit n]"

definition strftime :: "datetime \<Rightarrow> string" where
  "strftime t =
     digits 4 (year t) @ ''-'' @ digits 2 (month t) @ ''-'' @ digits 2 (day t) @ ''T'' @
     digits 2 (hour t) @ '':'' @ digits 2 (minute t) @ '':'' @ digits 2 (second t) @ ''.'' @
     digits 6 (microsecond t) @ ''Z''"

text \<open>
  The host's clock at the moment of the call, read in two ways: as UTC and as the wall
  clock of the host's time zone. \<^verbatim>\<open>datetime.now()\<close> without an argument returns the
  wall-clock (local) reading.
\<close>

record clock =
  utc_time :: datetime
  local_time :: datetime

definition datetime_now :: "clock \<Rightarrow> datetime" where
  "datetime_now c = local_time c"

text \<open>
  What the call reads from outside: the elevator library (\<^verbatim>\<open>initialize_options\<close>
  followed by \<^verbatim>\<open>step_bundle\<close>, which returns the upgraded bundle or raises), the clock
  and the value \<^verbatim>\<open>uuid4()\<close> returns, printed.
\<close>

record env =
  step_bundle :: "json \<Rightarrow> py_exc + json"
  host_clock :: clock
  uuid4 :: string

text \<open>
  \<^verbatim>\<open>traceback.print_exc(limit=None, file=None, chain=True)\<close> of the standard library,
  called at line 52 with the caught exception as its first argument, that is, as
  \<open>limit\<close>. The library evaluates \<^verbatim>\<open>limit >= 0\<close> for every \<open>limit\<close> other than
  \<^verbatim>\<open>None\<close>, which raises \<^verbatim>\<open>TypeError\<close> when \<open>limit\<close> is an exception object.
\<close>

definition traceback_print_exc :: "py_exc \<Rightarrow> py_exc + unit" where
  "traceback_print_exc limit = Inl TypeError"

section \<open>Program state: bundles by reference, printed diagnostics\<close>

text \<open>
  A bundle is passed by reference. The store maps a reference to the value of the object
  it denotes; \<^verbatim>\<open>copy.deepcopy\<close> allocates a new object with an equal value that shares
  nothing with its argument. Every \<^verbatim>\<open>print\<close> appends one diagnostic.
\<close>

type_synonym addr = nat

datatype diag =
    NoteUpgrading
  | NoteUpgraded
  | ErrorUpgrade py_exc
  | ErrorTrace
  | ErrorVersion json
  | ErrorMissingField json py_exc
  | NoteMultipleCreatedBy json json

record state =
  heap :: "addr \<Rightarrow> json"
  nxt :: addr
  out :: "diag list"

datatype retval = PyNone | Ref addr

definition deepcopy :: "addr \<Rightarrow> state \<Rightarrow> addr \<times> state" where
  "deepcopy a s = (nxt s, s\<lparr>heap := (heap s)(nxt s := heap s a), nxt := Suc (nxt s)\<rparr>)"

definition py_print :: "diag \<Rightarrow> state \<Rightarrow> state" where
  "py_print d s = s\<lparr>out := out s @ [d]\<rparr>"

section \<open>The module \<^verbatim>\<open>stix_to_collection.py\<close>\<close>

definition X_MITRE_SPEC_VERSION :: string where
  "X_MITRE_SPEC_VERSION = ''2.1.0''"

text \<open>
  \<^verbatim>\<open>raw_collection\<close> (lines 62 to 75): one field for each key of the dictionary, in the
  order in which \<^verbatim>\<open>dict(...)\<close> inserts them; \<open>collection_json\<close> is the dictionary itself.
\<close>

record raw_collection =
  rc_type :: string
  rc_id :: string
  rc_spec_version :: string
  rc_name :: string
  rc_x_mitre_version :: string
  rc_x_mitre_attack_spec_version :: string
  rc_description :: string
  rc_created_by_ref :: json
  rc_created :: string
  rc_modified :: string
  rc_object_marking_refs :: "json list"
  rc_x_mitre_contents :: "json list"

definition collection_json :: "raw_collection \<Rightarrow> json" where
  "collection_json raw = JDict
     [(''type'', JStr (rc_type raw)),
      (''id'', JStr (rc_id raw)),
      (''spec_version'', JStr (rc_spec_version raw)),
      (''name'', JStr (rc_name raw)),
      (''x_mitre_version'', JStr (rc_x_mitre_version raw)),
      (''x_mitre_attack_spec_version'', JStr (rc_x_mitre_attack_spec_version raw)),
      (''description'', JStr (rc_description raw)),
      (''created_by_ref'', rc_created_by_ref raw),
      (''created'', JStr (rc_created raw)),
      (''modified'', JStr (rc_modified raw)),
      (''object_marking_refs'', JList (rc_object_marking_refs raw)),
      (''x_mitre_contents'', JList (rc_x_mitre_contents raw))]"

text \<open>Lines 30 to 32: the scan for an existing collection object.\<close>

fun has_collection :: "json list \<Rightarrow> py_exc + bool" where
  "has_collection [] = Inr False"
| "has_collection (obj # objs) =
     (case py_getitem obj ''type'' of
        Inl e \<Rightarrow> Inl e
      | Inr ty \<Rightarrow> if py_eq ty (JStr ''x-mitre-collection'') then Inr True
                  else has_collection objs)"

text \<open>
  Lines 33 to 53: the upgrade of a 2.0 bundle. The result \<open>None\<close> means that control
  falls through to line 54; \<open>Some r\<close> that the function is left with \<open>r\<close>. The upgraded
  bundle becomes the working bundle.
\<close>

definition upgrade_2_0 ::
  "env \<Rightarrow> addr \<Rightarrow> addr \<Rightarrow> state \<Rightarrow> (py_exc + retval) option \<times> state" where
  "upgrade_2_0 env bundle w s =
     (case py_get (heap s bundle) ''spec_version'' (JStr []) of
        Inl e \<Rightarrow> (Some (Inl e), s)
      | Inr sv \<Rightarrow>
          if py_eq sv (JStr ''2.0'') then
            (let s1 = py_print NoteUpgrading s in
             case step_bundle env (heap s1 w) of
               Inr upgraded \<Rightarrow>
                 (None, py_print NoteUpgraded (s1\<lparr>heap := (heap s1)(w := upgraded)\<rparr>))
             | Inl e \<Rightarrow>
                 (let s2 = py_print (ErrorUpgrade e) s1 in
                  case traceback_print_exc e of
                    Inl e' \<Rightarrow> (Some (Inl e'), s2)
                  | Inr u \<Rightarrow> (Some (Inr PyNone), py_print ErrorTrace s2)))
          else (None, s))"

text \<open>Lines 54 to 58: the report of a spec version that is neither 2.0 nor 2.1.\<close>

definition check_version :: "addr \<Rightarrow> addr \<Rightarrow> state \<Rightarrow> py_exc + state" where
  "check_version bundle w s =
     (case py_get (heap s bundle) ''spec_version'' (JStr []) of
        Inl e \<Rightarrow> Inl e
      | Inr sv \<Rightarrow>
          if \<not> py_eq sv (JStr ''2.1'') \<and> \<not> py_eq sv (JStr ''2.0'') then
            (case py_get (heap s w) ''spec_version'' (JStr ''[NOT FOUND]'') of
               Inl e \<Rightarrow> Inl e
             | Inr v \<Rightarrow> Inr (py_print (ErrorVersion v) s))
          else Inr s)"

text \<open>Lines 59 to 75: the timestamp, the default description, the new collection.\<close>

definition default_description :: string where
  "default_description =
     ''This collection was autogenerated by STIXToCollection, as part of mitreattack-python''"

definition new_collection :: "env \<Rightarrow> string \<Rightarrow> string \<Rightarrow> string option \<Rightarrow> raw_collection" where
  "new_collection env name version description =
     (let time = strftime (datetime_now (host_clock env));
          description' = (case description of
                            None \<Rightarrow> default_description
                          | Some d \<Rightarrow> if d = [] then default_description else d)
      in \<lparr>rc_type = ''x-mitre-collection'',
          rc_id = ''x-mitre-collection--'' @ uuid4 env,
          rc_spec_version = ''2.1'',
          rc_name = name,
          rc_x_mitre_version = version,
          rc_x_mitre_attack_spec_version = X_MITRE_SPEC_VERSION,
          rc_description = description',
          rc_created_by_ref = JStr [],
          rc_created = time,
          rc_modified = time,
          rc_object_marking_refs = [],
          rc_x_mitre_contents = []\<rparr>)"

text \<open>Lines 79 to 81: the entry of one object (\<^verbatim>\<open>obj["id"]\<close> is evaluated first).\<close>

definition append_contents :: "json \<Rightarrow> raw_collection \<Rightarrow> py_exc + raw_collection" where
  "append_contents obj raw =
     (case py_getitem obj ''id'' of
        Inl e \<Rightarrow> Inl e
      | Inr i \<Rightarrow>
          (case py_getitem obj ''modified'' of
             Inl e \<Rightarrow> Inl e
           | Inr m \<Rightarrow>
               Inr (raw\<lparr>rc_x_mitre_contents := rc_x_mitre_contents raw @
                      [JDict [(''object_ref'', i), (''object_modified'', m)]]\<rparr>)))"

text \<open>Lines 86 to 88: the inner loop over the marking references of one object.\<close>

fun add_markings :: "json list \<Rightarrow> json list \<Rightarrow> json list" where
  "add_markings [] refs = refs"
| "add_markings (omr # omrs) refs =
     add_markings omrs (if \<not> py_in omr refs then refs @ [omr] else refs)"

text \<open>Lines 85 to 88.\<close>

definition collect_markings :: "json \<Rightarrow> raw_collection \<Rightarrow> py_exc + raw_collection" where
  "collect_markings obj raw =
     (case py_keys obj of
        Inl e \<Rightarrow> Inl e
      | Inr ks \<Rightarrow>
          if ''object_marking_refs'' \<in> set ks then
            (case py_getitem obj ''object_marking_refs'' of
               Inl e \<Rightarrow> Inl e
             | Inr v \<Rightarrow>
                 (case py_iter v of
                    Inl e \<Rightarrow> Inl e
                  | Inr omrs \<Rightarrow>
                      Inr (raw\<lparr>rc_object_marking_refs :=
                                 add_markings omrs (rc_object_marking_refs raw)\<rparr>)))
          else Inr raw)"

text \<open>
  Lines 89 to 98. The \<^verbatim>\<open>continue\<close> of line 97 skips the assignment of line 98, the last
  statement of the loop body.
\<close>

definition resolve_created_by ::
  "json \<Rightarrow> raw_collection \<Rightarrow> state \<Rightarrow> py_exc + raw_collection \<times> state" where
  "resolve_created_by obj raw s =
     (case py_keys obj of
        Inl e \<Rightarrow> Inl e
      | Inr ks \<Rightarrow>
          if ''created_by_ref'' \<in> set ks then
            (case py_getitem obj ''created_by_ref'' of
               Inl e \<Rightarrow> Inl e
             | Inr c \<Rightarrow>
                 if \<not> py_eq c (rc_created_by_ref raw) then
                   if \<not> py_eq (rc_created_by_ref raw) (JStr []) then
                     Inr (raw, py_print (NoteMultipleCreatedBy (rc_created_by_ref raw) c) s)
                   else Inr (raw\<lparr>rc_created_by_ref := c\<rparr>, s)
                 else Inr (raw, s))
          else Inr (raw, s))"

text \<open>
  Lines 77 to 98, the body of the aggregation loop for one object. It ends normally with
  the updated collection, leaves the function with \<^verbatim>\<open>None\<close> (line 84, after the
  \<^verbatim>\<open>KeyError\<close> handler has printed), or lets an exception escape.
\<close>

datatype loop_exit = Normal raw_collection | ReturnNone | Uncaught py_exc

definition aggregate_body :: "json \<Rightarrow> raw_collection \<Rightarrow> state \<Rightarrow> loop_exit \<times> state" where
  "aggregate_body obj raw s =
     (case py_getitem obj ''type'' of
        Inl e \<Rightarrow> (Uncaught e, s)
      | Inr ty \<Rightarrow>
          if \<not> py_eq ty (JStr ''marking-definition'') then
            (case append_contents obj raw of
               Inl (KeyError k) \<Rightarrow>
                 (ReturnNone, py_print (ErrorMissingField obj (KeyError k)) s)
             | Inl e \<Rightarrow> (Uncaught e, s)
             | Inr raw1 \<Rightarrow>
                 (case collect_markings obj raw1 of
                    Inl e \<Rightarrow> (Uncaught e, s)
                  | Inr raw2 \<Rightarrow>
                      (case resolve_created_by obj raw2 s of
                         Inl e \<Rightarrow> (Uncaught e, s)
                       | Inr (raw3, s') \<Rightarrow> (Normal raw3, s'))))
          else (Normal raw, s))"

text \<open>Lines 76 to 98: the loop.\<close>

fun aggregate :: "json list \<Rightarrow> raw_collection \<Rightarrow> state \<Rightarrow> loop_exit \<times> state" where
  "aggregate [] raw s = (Normal raw, s)"
| "aggregate (obj # objs) raw s =
     (case aggregate_body obj raw s of
        (Normal raw', s') \<Rightarrow> aggregate objs raw' s'
      | (ReturnNone, s') \<Rightarrow> (ReturnNone, s')
      | (Uncaught e, s') \<Rightarrow> (Uncaught e, s'))"

text \<open>Lines 59 to 101: the construction on the working bundle \<open>w\<close>.\<close>

definition build_collection ::
  "env \<Rightarrow> addr \<Rightarrow> string \<Rightarrow> string \<Rightarrow> string option \<Rightarrow> state \<Rightarrow> (py_exc + retval) \<times> state" where
  "build_collection env w name version description s =
     (let raw_collection = new_collection env name version description in
      case py_getitem (heap s w) ''objects'' of
        Inl e \<Rightarrow> (Inl e, s)
      | Inr objects \<Rightarrow>
          (case py_iter objects of
             Inl e \<Rightarrow> (Inl e, s)
           | Inr objs \<Rightarrow>
               (case aggregate objs raw_collection s of
                  (Uncaught e, s') \<Rightarrow> (Inl e, s')
                | (ReturnNone, s') \<Rightarrow> (Inr PyNone, s')
                | (Normal raw, s') \<Rightarrow>
                    (case py_getitem (heap s' w) ''objects'' of
                       Inl e \<Rightarrow> (Inl e, s')
                     | Inr objects' \<Rightarrow>
                         (case py_insert0 objects' (collection_json raw) of
                            Inl e \<Rightarrow> (Inl e, s')
                          | Inr inserted \<Rightarrow>
                              (Inr (Ref w),
                               s'\<lparr>heap := (heap s')
                                    (w := with_item (heap s' w) ''objects'' inserted)\<rparr>))))))"

text \<open>
  \<^verbatim>\<open>STIXToCollection.stix_to_collection(bundle, name, version, description)\<close>.
  The result is the exception that leaves the call (\<open>Inl\<close>) or the returned value:
  \<^verbatim>\<open>None\<close> or a reference to a bundle.
\<close>

definition stix_to_collection ::
  "env \<Rightarrow> addr \<Rightarrow> string \<Rightarrow> string \<Rightarrow> string option \<Rightarrow> state \<Rightarrow> (py_exc + retval) \<times> state" where
  "stix_to_collection env bundle name version description s =
     (let (working_bundle, s1) = deepcopy bundle s in
      case py_getitem (heap s1 working_bundle) ''objects'' of
        Inl e \<Rightarrow> (Inl e, s1)
      | Inr objects \<Rightarrow>
          (case py_iter objects of
             Inl e \<Rightarrow> (Inl e, s1)
           | Inr objs \<Rightarrow>
               (case has_collection objs of
                  Inl e \<Rightarrow> (Inl e, s1)
                | Inr True \<Rightarrow> (Inr (Ref bundle), s1)
                | Inr False \<Rightarrow>
                    (case upgrade_2_0 env bundle working_bundle s1 of
                       (Some r, s2) \<Rightarrow> (r, s2)
                     | (None, s2) \<Rightarrow>
                         (case check_version bundle working_bundle s2 of
                            Inl e \<Rightarrow> (Inl e, s2)
                          | Inr s3 \<Rightarrow>
                              build_collection env working_bundle name version description s3)))))"

section \<open>Vocabulary of the specification\<close>

text \<open>
  The notions the specification uses to talk about bundles and objects, defined on the
  values above. A field is read as the code reads it (\<^verbatim>\<open>obj[key]\<close>); it is absent when
  the lookup raises.
\<close>

definition field :: "json \<Rightarrow> string \<Rightarrow> json option" where
  "field obj key = (case py_getitem obj key of Inl e \<Rightarrow> None | Inr v \<Rightarrow> Some v)"

definition has_field :: "json \<Rightarrow> string \<Rightarrow> bool" where
  "has_field obj key = (field obj key \<noteq> None)"

definition is_collection :: "json \<Rightarrow> bool" where
  "is_collection obj = (field obj ''type'' = Some (JStr ''x-mitre-collection''))"

definition is_marking_definition :: "json \<Rightarrow> bool" where
  "is_marking_definition obj = (field obj ''type'' = Some (JStr ''marking-definition''))"

text \<open>An object with a type other than \<^verbatim>\<open>x-mitre-collection\<close>.\<close>

definition non_collection :: "json \<Rightarrow> bool" where
  "non_collection obj = (has_field obj ''type'' \<and> \<not> is_collection obj)"

text \<open>A content object: any object with a type other than \<^verbatim>\<open>marking-definition\<close>.\<close>

definition is_content :: "json \<Rightarrow> bool" where
  "is_content obj = (has_field obj ''type'' \<and> \<not> is_marking_definition obj)"

text \<open>The \<^verbatim>\<open>objects\<close> sequence of a bundle and the \<^verbatim>\<open>spec_version\<close> the code reads.\<close>

definition bundle_objects :: "json \<Rightarrow> json list" where
  "bundle_objects b = (case field b ''objects'' of Some (JList objs) \<Rightarrow> objs | _ \<Rightarrow> [])"

definition spec_version_of :: "json \<Rightarrow> json" where
  "spec_version_of b = (case field b ''spec_version'' of Some v \<Rightarrow> v | None \<Rightarrow> JStr [])"

text \<open>
  The bundle whose objects are aggregated: the input itself, or what the elevator library
  makes of it when its \<^verbatim>\<open>spec_version\<close> is 2.0.
\<close>

definition working_value :: "env \<Rightarrow> json \<Rightarrow> py_exc + json" where
  "working_value env b =
     (if spec_version_of b = JStr ''2.0'' then step_bundle env b else Inr b)"

text \<open>The entry \<^verbatim>\<open>{object_ref: O.id, object_modified: O.modified}\<close> of an object.\<close>

definition contents_entry :: "json \<Rightarrow> json option" where
  "contents_entry obj =
     (case field obj ''id'' of
        None \<Rightarrow> None
      | Some i \<Rightarrow>
          (case field obj ''modified'' of
             None \<Rightarrow> None
           | Some m \<Rightarrow> Some (JDict [(''object_ref'', i), (''object_modified'', m)])))"

text \<open>The marking references an object carries, in the order of iteration.\<close>

definition marking_refs :: "json \<Rightarrow> json list" where
  "marking_refs obj =
     (case field obj ''object_marking_refs'' of
        None \<Rightarrow> []
      | Some v \<Rightarrow> (case py_iter v of Inl e \<Rightarrow> [] | Inr omrs \<Rightarrow> omrs))"

definition markings_iterable :: "json \<Rightarrow> bool" where
  "markings_iterable obj =
     (case field obj ''object_marking_refs'' of
        None \<Rightarrow> True
      | Some v \<Rightarrow> (case py_iter v of Inl e \<Rightarrow> False | Inr omrs \<Rightarrow> True))"

definition is_object :: "json \<Rightarrow> bool" where
  "is_object v = (case v of JDict kvs \<Rightarrow> True | _ \<Rightarrow> False)"

definition is_str :: "json \<Rightarrow> bool" where
  "is_str v = (case v of JStr s \<Rightarrow> True | _ \<Rightarrow> False)"

text \<open>
  An object the aggregation loop can process: it has a type and, when it is a content
  object, \<^verbatim>\<open>id\<close>, \<^verbatim>\<open>modified\<close> and marking references that can be iterated.
\<close>

definition aggregable :: "json \<Rightarrow> bool" where
  "aggregable obj =
     (has_field obj ''type'' \<and>
      (is_content obj \<longrightarrow>
         has_field obj ''id'' \<and> has_field obj ''modified'' \<and> markings_iterable obj))"

text \<open>
  First-seen order without duplicates: an element stays where it first occurs and its
  later occurrences are dropped.
\<close>

primrec first_occurrences :: "'a list \<Rightarrow> 'a list" where
  "first_occurrences [] = []"
| "first_occurrences (x # xs) = x # filter (\<lambda>y. y \<noteq> x) (first_occurrences xs)"

text \<open>The \<^verbatim>\<open>created_by_ref\<close> values of the content objects, in bundle order.\<close>

definition created_by_values :: "json list \<Rightarrow> json list" where
  "created_by_values objs =
     List.map_filter (\<lambda>obj. field obj ''created_by_ref'') (filter is_content objs)"

text \<open>
  First-seen-wins: the first value that is not the empty string, or the empty string
  when there is none; and the conflict notes printed for the values after it that
  differ from it.
\<close>

definition first_author :: "json list \<Rightarrow> json" where
  "first_author vs = (case filter (\<lambda>v. v \<noteq> JStr []) vs of [] \<Rightarrow> JStr [] | v # _ \<Rightarrow> v)"

definition conflict_notes :: "json list \<Rightarrow> diag list" where
  "conflict_notes vs =
     (case dropWhile (\<lambda>v. v = JStr []) vs of
        [] \<Rightarrow> []
      | first # later \<Rightarrow>
          map (NoteMultipleCreatedBy first) (filter (\<lambda>v. \<not> py_eq v first) later))"

text \<open>The diagnostics printed before the aggregation starts (lines 33 to 58).\<close>

definition prelude_diags :: "json \<Rightarrow> diag list" where
  "prelude_diags b =
     (if spec_version_of b = JStr ''2.0'' then [NoteUpgrading, NoteUpgraded]
      else if spec_version_of b = JStr ''2.1'' then []
      else [ErrorVersion (case field b ''spec_version'' of
                            None \<Rightarrow> JStr ''[NOT FOUND]'' | Some v \<Rightarrow> v)])"

section \<open>Auxiliary notions of the proofs\<close>

text \<open>
  One step of the resolution of \<^verbatim>\<open>created_by_ref\<close> (lines 89 to 98) as a function of the
  current value and the value the object carries, and the step iterated over a list.
\<close>

definition resolve_author :: "json \<Rightarrow> json option \<Rightarrow> json" where
  "resolve_author cur c = (case c of None \<Rightarrow> cur
     | Some v \<Rightarrow> if \<not> py_eq v cur \<and> cur = JStr [] then v else cur)"

definition author_note :: "json \<Rightarrow> json option \<Rightarrow> diag list" where
  "author_note cur c = (case c of None \<Rightarrow> []
     | Some v \<Rightarrow> if \<not> py_eq v cur \<and> cur \<noteq> JStr [] then [NoteMultipleCreatedBy cur v] else [])"

primrec fold_author :: "json \<Rightarrow> json list \<Rightarrow> json" where
  "fold_author cur [] = cur"
| "fold_author cur (v # vs) = fold_author (resolve_author cur (Some v)) vs"

primrec fold_notes :: "json \<Rightarrow> json list \<Rightarrow> diag list" where
  "fold_notes cur [] = []"
| "fold_notes cur (v # vs) = author_note cur (Some v) @ fold_notes (resolve_author cur (Some v)) vs"

text \<open>The collection the aggregation loop builds from the objects it scans.\<close>

definition built :: "env \<Rightarrow> string \<Rightarrow> string \<Rightarrow> string option \<Rightarrow> json list \<Rightarrow> raw_collection" where
  "built env name version description objs =
     (new_collection env name version description)
       \<lparr>rc_x_mitre_contents := map (\<lambda>obj. the (contents_entry obj)) (filter is_content objs),
        rc_object_marking_refs := add_markings (concat (map marking_refs (filter is_content objs))) [],
        rc_created_by_ref := first_author (created_by_values objs)\<rparr>"

text \<open>
  The state after the deep copy, and the state in which the aggregation starts: the
  working bundle \<open>wb\<close> is stored under the new reference and \<open>ds\<close> has been printed.
\<close>

definition copied :: "addr \<Rightarrow> state \<Rightarrow> state" where
  "copied bundle s = s\<lparr>heap := (heap s)(nxt s := heap s bundle), nxt := Suc (nxt s)\<rparr>"

definition started :: "addr \<Rightarrow> json \<Rightarrow> diag list \<Rightarrow> state \<Rightarrow> state" where
  "started bundle wb ds s =
     s\<lparr>heap := (heap s)(nxt s := wb), nxt := Suc (nxt s), out := out s @ ds\<rparr>"

section \<open>Example bundles\<close>

text \<open>
  A clock of a host two hours east of UTC, an environment around a given elevator, a state
  holding one bundle under reference 0, and a few objects.
\<close>

definition ex_clock :: clock where
  "ex_clock =
     \<lparr>utc_time = \<lparr>year = 2024, month = 3, day = 9, hour = 10, minute = 4, second = 5,
                   microsecond = 678\<rparr>,
      local_time = \<lparr>year = 2024, month = 3, day = 9, hour = 12, minute = 4, second = 5,
                     microsecond = 678\<rparr>\<rparr>"

definition ex_env :: "(json \<Rightarrow> py_exc + json) \<Rightarrow> env" where
  "ex_env step = \<lparr>step_bundle = step, host_clock = ex_clock, uuid4 = ''0f6b''\<rparr>"

definition ex_state :: "json \<Rightarrow> state" where
  "ex_state b = \<lparr>heap = (\<lambda>a. if a = 0 then b else JNull), nxt = 1, out = []\<rparr>"

definition ex_a :: json where
  "ex_a = JDict [(''type'', JStr ''attack-pattern''), (''id'', JStr ''attack-pattern--a''),
     (''modified'', JStr ''2023-01-01T00:00:00.000Z''),
     (''object_marking_refs'', JList [JStr ''m1'']), (''created_by_ref'', JStr ''identity--a'')]"

definition ex_m :: json where
  "ex_m = JDict [(''type'', JStr ''marking-definition''), (''id'', JStr ''m1''),
     (''object_marking_refs'', JList [JStr ''m9'']), (''created_by_ref'', JStr ''identity--m'')]"

definition ex_b :: json where
  "ex_b = JDict [(''type'', JStr ''malware''), (''id'', JStr ''malware--b''),
     (''modified'', JStr ''2023-02-02T00:00:00.000Z''),
     (''object_marking_refs'', JList [JStr ''m1'', JStr ''m2'']),
     (''created_by_ref'', JStr ''identity--b'')]"

definition ex_c :: json where
  "ex_c = JDict [(''type'', JStr ''tool''), (''id'', JStr ''tool--c''),
     (''modified'', JStr ''2023-03-03T00:00:00.000Z''),
     (''object_marking_refs'', JList [JStr ''m2''])]"

definition ex_d :: json where
  "ex_d = JDict [(''type'', JStr ''tool''), (''id'', JStr ''tool--d'')]"

definition ex_u :: json where
  "ex_u = JDict [(''id'', JStr ''tool--u''), (''modified'', JStr ''2023-04-04T00:00:00.000Z'')]"

definition ex_x :: json where
  "ex_x = JDict [(''type'', JStr ''x-mitre-collection''), (''id'', JStr ''x-mitre-collection--x'')]"

definition ex_bundle :: "string option \<Rightarrow> json list \<Rightarrow> json" where
  "ex_bundle sv objs =
     JDict ([(''type'', JStr ''bundle''), (''id'', JStr ''bundle--1'')] @
            (case sv of None \<Rightarrow> [] | Some v \<Rightarrow> [(''spec_version'', JStr v)]) @
            [(''objects'', JList objs)])"

text \<open>An elevator that raises on every bundle.\<close>

definition ex_failing :: "json \<Rightarrow> py_exc + json" where
  "ex_failing b = Inl (LibraryError ''cannot upgrade'')"

text \<open>
  An elevator that returns the bundle with one more object (as when an embedded
  observable becomes an object of its own), and one that supplies a \<^verbatim>\<open>modified\<close> field
  to the objects that lack it.
\<close>

definition ex_extending :: "json \<Rightarrow> py_exc + json" where
  "ex_extending b = Inr (with_item b ''objects'' (JList (bundle_objects b @ [ex_c])))"

definition ex_repairing :: "json \<Rightarrow> py_exc + json" where
  "ex_repairing b =
     Inr (with_item b ''objects''
       (JList (map (\<lambda>obj. if has_field obj ''modified'' then obj
                         else with_item obj ''modified'' (JStr ''2020-01-01T00:00:00.000Z''))
                   (bundle_objects b))))"

section \<open>Lemmas\<close>

subsection \<open>Python operations on strings and fields\<close>

lemma py_eq_JStr_right [simp]: "py_eq x (JStr s) \<longleftrightarrow> x = JStr s"
  by (cases x) auto

lemma py_eq_JStr_left [simp]: "py_eq (JStr s) x \<longleftrightarrow> x = JStr s"
  by (cases x) auto

lemma py_in_str [simp]: "py_in (JStr r) refs \<longleftrightarrow> JStr r \<in> set refs"
  by (auto simp: py_in_def list_ex_iff)

lemma field_simps:
  "py_getitem obj key = Inr v \<longleftrightarrow> field obj key = Some v"
  "(\<exists>e. py_getitem obj key = Inl e) \<longleftrightarrow> field obj key = None"
  by (auto simp: field_def split: sum.splits)

lemma key_in_keys: "key \<in> fst ` set kvs \<longleftrightarrow> map_of kvs key \<noteq> None"
  by (simp add: map_of_eq_None_iff)

subsection \<open>One object in the aggregation loop\<close>

text \<open>
  What the loop body does with a marking definition, with an object that has no type,
  with a well-formed content object and with one that lacks \<^verbatim>\<open>id\<close> or \<^verbatim>\<open>modified\<close>.
\<close>

lemma aggregate_body_marking:
  "is_marking_definition obj \<Longrightarrow> aggregate_body obj raw s = (Normal raw, s)"
  by (auto simp: aggregate_body_def is_marking_definition_def field_def split: sum.splits)

lemma aggregate_body_untyped:
  "\<not> has_field obj ''type'' \<Longrightarrow> \<exists>e. aggregate_body obj raw s = (Uncaught e, s)"
  by (auto simp: aggregate_body_def has_field_def field_def split: sum.splits)

lemma content_dict:
  assumes "is_content obj"
  obtains kvs ty where "obj = JDict kvs" "map_of kvs ''type'' = Some ty" "ty \<noteq> JStr ''marking-definition''"
  using assms
  by (cases obj) (auto simp: is_content_def is_marking_definition_def has_field_def field_def split: option.splits)

lemma aggregate_body_content:
  assumes "is_content obj" "has_field obj ''id''" "has_field obj ''modified''" "markings_iterable obj"
  shows "aggregate_body obj raw s =
    (Normal (raw\<lparr>rc_x_mitre_contents := rc_x_mitre_contents raw @ [the (contents_entry obj)],
                 rc_object_marking_refs := add_markings (marking_refs obj) (rc_object_marking_refs raw),
                 rc_created_by_ref := resolve_author (rc_created_by_ref raw) (field obj ''created_by_ref'')\<rparr>),
     s\<lparr>out := out s @ author_note (rc_created_by_ref raw) (field obj ''created_by_ref'')\<rparr>)"
proof -
  from assms(1) obtain kvs ty where obj: "obj = JDict kvs" and ty: "map_of kvs ''type'' = Some ty"
    "ty \<noteq> JStr ''marking-definition''" by (rule content_dict)
  from assms(2) obtain i where i: "map_of kvs ''id'' = Some i"
    by (auto simp: obj has_field_def field_def split: option.splits)
  from assms(3) obtain m where m: "map_of kvs ''modified'' = Some m"
    by (auto simp: obj has_field_def field_def split: option.splits)
  have ac: "append_contents obj raw = Inr (raw\<lparr>rc_x_mitre_contents := rc_x_mitre_contents raw @ [the (contents_entry obj)]\<rparr>)"
    by (simp add: append_contents_def obj i m contents_entry_def field_def)
  have cm: "collect_markings obj r = Inr (r\<lparr>rc_object_marking_refs := add_markings (marking_refs obj) (rc_object_marking_refs r)\<rparr>)" for r
  proof (cases "map_of kvs ''object_marking_refs''")
    case None
    then show ?thesis by (simp add: collect_markings_def obj key_in_keys marking_refs_def field_def)
  next
    case (Some v)
    with assms(4) obtain omrs where "py_iter v = Inr omrs"
      by (auto simp: markings_iterable_def obj field_def split: sum.splits)
    with Some show ?thesis by (simp add: collect_markings_def obj key_in_keys marking_refs_def field_def)
  qed
  have rc: "resolve_created_by obj r s = Inr (r\<lparr>rc_created_by_ref := resolve_author (rc_created_by_ref r) (field obj ''created_by_ref'')\<rparr>,
      s\<lparr>out := out s @ author_note (rc_created_by_ref r) (field obj ''created_by_ref'')\<rparr>)" for r
  proof (cases "map_of kvs ''created_by_ref''")
    case None
    then show ?thesis by (simp add: resolve_created_by_def obj key_in_keys resolve_author_def author_note_def field_def)
  next
    case (Some c)
    then show ?thesis by (simp add: resolve_created_by_def obj key_in_keys resolve_author_def author_note_def field_def py_print_def)
  qed
  show ?thesis
    by (simp add: aggregate_body_def obj ty ac[unfolded obj] cm[unfolded obj] rc[unfolded obj])
qed

lemma aggregate_body_missing:
  assumes "is_content obj" "\<not> (has_field obj ''id'' \<and> has_field obj ''modified'')"
  shows "aggregate_body obj raw s =
    (ReturnNone, s\<lparr>out := out s @ [ErrorMissingField obj
        (KeyError (if has_field obj ''id'' then ''modified'' else ''id''))]\<rparr>)"
proof -
  from assms(1) obtain kvs ty where obj: "obj = JDict kvs" and ty: "map_of kvs ''type'' = Some ty"
    "ty \<noteq> JStr ''marking-definition''" by (rule content_dict)
  have ac: "append_contents obj raw = Inl (KeyError (if has_field obj ''id'' then ''modified'' else ''id''))"
    using assms(2) by (cases "map_of kvs ''id''"; cases "map_of kvs ''modified''")
      (simp_all add: append_contents_def obj has_field_def field_def)
  show ?thesis
    by (simp add: aggregate_body_def obj ty ac[unfolded obj] py_print_def)
qed

subsection \<open>The aggregation loop\<close>

text \<open>
  The loop only prints: it leaves the store alone. On well-formed objects it ends normally
  and builds the three accumulated fields as stated.
\<close>

lemma resolve_created_by_frame:
  "resolve_created_by obj raw s = Inr (raw', s') \<Longrightarrow> heap s' = heap s \<and> nxt s' = nxt s"
  by (auto simp: resolve_created_by_def py_print_def split: sum.splits if_splits)

lemma aggregate_body_frame:
  "aggregate_body obj raw s = (r, s') \<Longrightarrow> heap s' = heap s \<and> nxt s' = nxt s"
  by (auto simp: aggregate_body_def py_print_def split: sum.splits if_splits py_exc.splits prod.splits
      dest: resolve_created_by_frame)

lemma aggregate_frame:
  "aggregate objs raw s = (r, s') \<Longrightarrow> heap s' = heap s \<and> nxt s' = nxt s"
proof (induction objs arbitrary: raw s)
  case Nil
  then show ?case by simp
next
  case (Cons obj objs)
  obtain r1 s1 where b: "aggregate_body obj raw s = (r1, s1)" by (cases "aggregate_body obj raw s")
  from aggregate_body_frame[OF b] have f: "heap s1 = heap s" "nxt s1 = nxt s" by simp_all
  show ?case
  proof (cases r1)
    case (Normal raw1)
    with Cons.prems b have "aggregate objs raw1 s1 = (r, s')" by simp
    from Cons.IH[OF this] f show ?thesis by simp
  next
    case ReturnNone
    with Cons.prems b f show ?thesis by auto
  next
    case (Uncaught e)
    with Cons.prems b f show ?thesis by auto
  qed
qed

lemma aggregate_append:
  "aggregate (xs @ ys) raw s =
     (case aggregate xs raw s of
        (Normal raw', s') \<Rightarrow> aggregate ys raw' s'
      | (ReturnNone, s') \<Rightarrow> (ReturnNone, s')
      | (Uncaught e, s') \<Rightarrow> (Uncaught e, s'))"
proof (induction xs arbitrary: raw s)
  case Nil
  then show ?case by simp
next
  case (Cons x xs)
  obtain r1 s1 where b: "aggregate_body x raw s = (r1, s1)" by (cases "aggregate_body x raw s")
  show ?case by (cases r1) (simp_all add: b Cons.IH)
qed

lemma created_by_values_Cons:
  "created_by_values (obj # objs) =
     (if is_content obj then (case field obj ''created_by_ref'' of None \<Rightarrow> [] | Some v \<Rightarrow> [v]) else [])
     @ created_by_values objs"
  by (simp add: created_by_values_def List.map_filter_simps split: option.splits)

lemma aggregate_ok:
  "list_all aggregable objs \<Longrightarrow>
   \<exists>raw'. aggregate objs raw s =
       (Normal raw', s\<lparr>out := out s @ fold_notes (rc_created_by_ref raw) (created_by_values objs)\<rparr>) \<and>
     rc_x_mitre_contents raw' =
       rc_x_mitre_contents raw @ map (\<lambda>obj. the (contents_entry obj)) (filter is_content objs) \<and>
     rc_object_marking_refs raw' =
       add_markings (concat (map marking_refs (filter is_content objs))) (rc_object_marking_refs raw) \<and>
     rc_created_by_ref raw' = fold_author (rc_created_by_ref raw) (created_by_values objs) \<and>
     raw' = raw\<lparr>rc_x_mitre_contents := rc_x_mitre_contents raw',
                 rc_object_marking_refs := rc_object_marking_refs raw',
                 rc_created_by_ref := rc_created_by_ref raw'\<rparr>"
proof (induction objs arbitrary: raw s)
  case Nil
  then show ?case by (simp add: created_by_values_def List.map_filter_simps)
next
  case (Cons obj objs)
  then have ok: "aggregable obj" and rest: "list_all aggregable objs" by simp_all
  show ?case
  proof (cases "is_content obj")
    case False
    with ok have md: "is_marking_definition obj" by (simp add: aggregable_def is_content_def)
    from Cons.IH[OF rest, of raw s] obtain raw' where
      "aggregate objs raw s =
         (Normal raw', s\<lparr>out := out s @ fold_notes (rc_created_by_ref raw) (created_by_values objs)\<rparr>)"
      and rest': "rc_x_mitre_contents raw' =
         rc_x_mitre_contents raw @ map (\<lambda>obj. the (contents_entry obj)) (filter is_content objs)"
       "rc_object_marking_refs raw' =
         add_markings (concat (map marking_refs (filter is_content objs))) (rc_object_marking_refs raw)"
       "rc_created_by_ref raw' = fold_author (rc_created_by_ref raw) (created_by_values objs)"
       "raw' = raw\<lparr>rc_x_mitre_contents := rc_x_mitre_contents raw',
                 rc_object_marking_refs := rc_object_marking_refs raw',
                 rc_created_by_ref := rc_created_by_ref raw'\<rparr>"
      by blast
    then show ?thesis
      using False by (simp add: aggregate_body_marking[OF md] created_by_values_Cons)
  next
    case True
    with ok have fields: "has_field obj ''id''" "has_field obj ''modified''" "markings_iterable obj"
      by (simp_all add: aggregable_def)
    define raw1 where "raw1 = raw\<lparr>rc_x_mitre_contents := rc_x_mitre_contents raw @ [the (contents_entry obj)],
                 rc_object_marking_refs := add_markings (marking_refs obj) (rc_object_marking_refs raw),
                 rc_created_by_ref := resolve_author (rc_created_by_ref raw) (field obj ''created_by_ref'')\<rparr>"
    define s1 where "s1 = s\<lparr>out := out s @ author_note (rc_created_by_ref raw) (field obj ''created_by_ref'')\<rparr>"
    have body: "aggregate_body obj raw s = (Normal raw1, s1)"
      unfolding raw1_def s1_def by (rule aggregate_body_content[OF True fields])
    from Cons.IH[OF rest, of raw1 s1] obtain raw' where
      agg: "aggregate objs raw1 s1 =
         (Normal raw', s1\<lparr>out := out s1 @ fold_notes (rc_created_by_ref raw1) (created_by_values objs)\<rparr>)"
      and rest': "rc_x_mitre_contents raw' =
         rc_x_mitre_contents raw1 @ map (\<lambda>obj. the (contents_entry obj)) (filter is_content objs)"
       "rc_object_marking_refs raw' =
         add_markings (concat (map marking_refs (filter is_content objs))) (rc_object_marking_refs raw1)"
       "rc_created_by_ref raw' = fold_author (rc_created_by_ref raw1) (created_by_values objs)"
       "raw' = raw1\<lparr>rc_x_mitre_contents := rc_x_mitre_contents raw',
                 rc_object_marking_refs := rc_object_marking_refs raw',
                 rc_created_by_ref := rc_created_by_ref raw'\<rparr>"
      by blast
    have add_app: "add_markings (xs @ ys) acc = add_markings ys (add_markings xs acc)" for xs ys acc
      by (induction xs arbitrary: acc) simp_all
    have nts: "author_note (rc_created_by_ref raw) (field obj ''created_by_ref'') @
        fold_notes (rc_created_by_ref raw1) (created_by_values objs) =
        fold_notes (rc_created_by_ref raw) (created_by_values (obj # objs))"
      using True by (cases "field obj ''created_by_ref''")
        (simp_all add: created_by_values_Cons raw1_def author_note_def resolve_author_def)
    have auth: "fold_author (rc_created_by_ref raw1) (created_by_values objs) =
        fold_author (rc_created_by_ref raw) (created_by_values (obj # objs))"
      using True by (cases "field obj ''created_by_ref''")
        (simp_all add: created_by_values_Cons raw1_def resolve_author_def)
    have "aggregate (obj # objs) raw s =
       (Normal raw', s\<lparr>out := out s @ fold_notes (rc_created_by_ref raw) (created_by_values (obj # objs))\<rparr>)"
      using agg by (simp add: body s1_def nts[symmetric])
    moreover have "rc_x_mitre_contents raw' =
       rc_x_mitre_contents raw @ map (\<lambda>obj. the (contents_entry obj)) (filter is_content (obj # objs))"
      using rest'(1) True by (simp add: raw1_def)
    moreover have "rc_object_marking_refs raw' =
       add_markings (concat (map marking_refs (filter is_content (obj # objs)))) (rc_object_marking_refs raw)"
      using rest'(2) True by (simp add: raw1_def add_app)
    moreover have "rc_created_by_ref raw' = fold_author (rc_created_by_ref raw) (created_by_values (obj # objs))"
      using rest'(3) auth by simp
    moreover have "raw' = raw\<lparr>rc_x_mitre_contents := rc_x_mitre_contents raw',
                 rc_object_marking_refs := rc_object_marking_refs raw',
                 rc_created_by_ref := rc_created_by_ref raw'\<rparr>"
      by (subst rest'(4)) (simp add: raw1_def)
    ultimately show ?thesis by blast
  qed
qed

subsection \<open>First-seen-wins and first-seen order as functions\<close>

lemma fold_author_set: "cur \<noteq> JStr [] \<Longrightarrow> fold_author cur vs = cur"
  by (induction vs) (simp_all add: resolve_author_def)

lemma fold_author_first: "fold_author (JStr []) vs = first_author vs"
proof (induction vs)
  case Nil
  then show ?case by (simp add: first_author_def)
next
  case (Cons v vs)
  show ?case
  proof (cases "v = JStr []")
    case True
    with Cons show ?thesis by (simp add: resolve_author_def first_author_def)
  next
    case False
    then show ?thesis by (simp add: resolve_author_def first_author_def fold_author_set)
  qed
qed

lemma fold_notes_set:
  "cur \<noteq> JStr [] \<Longrightarrow>
   fold_notes cur vs = map (NoteMultipleCreatedBy cur) (filter (\<lambda>v. \<not> py_eq v cur) vs)"
  by (induction vs) (simp_all add: resolve_author_def author_note_def)

lemma fold_notes_first: "fold_notes (JStr []) vs = conflict_notes vs"
proof (induction vs)
  case Nil
  then show ?case by (simp add: conflict_notes_def)
next
  case (Cons v vs)
  show ?case
  proof (cases "v = JStr []")
    case True
    with Cons show ?thesis by (simp add: resolve_author_def author_note_def conflict_notes_def)
  next
    case False
    then show ?thesis
      by (simp add: resolve_author_def author_note_def conflict_notes_def fold_notes_set)
  qed
qed

lemma first_occurrences_filter:
  "first_occurrences (filter P xs) = filter P (first_occurrences xs)"
  by (induction xs) (auto simp: filter_filter conj_commute intro!: filter_cong)

lemma set_first_occurrences [simp]: "set (first_occurrences xs) = set xs"
  by (induction xs) auto

lemma distinct_first_occurrences [simp]: "distinct (first_occurrences xs)"
  by (induction xs) auto

lemma add_markings_strings:
  "list_all is_str omrs \<Longrightarrow>
   add_markings omrs refs = refs @ first_occurrences (filter (\<lambda>r. r \<notin> set refs) omrs)"
proof (induction omrs arbitrary: refs)
  case Nil
  then show ?case by simp
next
  case (Cons omr omrs)
  then obtain r where r: "omr = JStr r" by (cases omr) (simp_all add: is_str_def)
  from Cons.prems have rest: "list_all is_str omrs" by simp
  show ?case
  proof (cases "omr \<in> set refs")
    case True
    then show ?thesis using Cons.IH[OF rest, of refs] by (simp add: r)
  next
    case False
    have "filter (\<lambda>y. y \<noteq> omr) (first_occurrences (filter (\<lambda>r. r \<notin> set refs) omrs)) =
          first_occurrences (filter (\<lambda>r. r \<notin> set (refs @ [omr])) omrs)"
      by (simp add: first_occurrences_filter[symmetric] filter_filter conj_commute)
    then show ?thesis using False Cons.IH[OF rest, of "refs @ [omr]"] by (simp add: r)
  qed
qed

lemma add_markings_first_occurrences:
  "list_all is_str omrs \<Longrightarrow> add_markings omrs [] = first_occurrences omrs"
  by (simp add: add_markings_strings)

subsection \<open>The loop on a malformed object\<close>

lemma aggregate_missing:
  assumes pre: "list_all aggregable pre" and c: "is_content obj"
    and miss: "\<not> (has_field obj ''id'' \<and> has_field obj ''modified'')"
  shows "aggregate (pre @ obj # post) raw s =
     (ReturnNone, s\<lparr>out := out s @ fold_notes (rc_created_by_ref raw) (created_by_values pre) @
        [ErrorMissingField obj (KeyError (if has_field obj ''id'' then ''modified'' else ''id''))]\<rparr>)"
proof -
  from aggregate_ok[OF pre, of raw s] obtain raw' where
    "aggregate pre raw s =
       (Normal raw', s\<lparr>out := out s @ fold_notes (rc_created_by_ref raw) (created_by_values pre)\<rparr>)"
    by blast
  then show ?thesis
    by (simp add: aggregate_append aggregate_body_missing[OF c miss])
qed

subsection \<open>The scan for a collection object\<close>

lemma has_collection_Cons_non_collection: "non_collection obj \<Longrightarrow> has_collection (obj # objs) = has_collection objs"
  by (auto simp: non_collection_def has_field_def is_collection_def field_def split: sum.splits)

lemma has_collection_Cons_found: "is_collection obj \<Longrightarrow> has_collection (obj # objs) = Inr True"
  by (auto simp: is_collection_def field_def split: sum.splits)

lemma has_collection_Cons_untyped:
  "\<not> has_field obj ''type'' \<Longrightarrow>
   has_collection (obj # objs) = Inl (case obj of JDict kvs \<Rightarrow> KeyError ''type'' | _ \<Rightarrow> TypeError)"
  by (cases obj) (auto simp: has_field_def field_def split: option.splits)

lemma has_collection_non_collection: "list_all non_collection objs \<Longrightarrow> has_collection objs = Inr False"
  by (induction objs) (simp_all add: has_collection_Cons_non_collection del: has_collection.simps(2))

lemma has_collection_prefix:
  "list_all non_collection pre \<Longrightarrow> has_collection (pre @ objs) = has_collection objs"
  by (induction pre) (simp_all add: has_collection_Cons_non_collection del: has_collection.simps(2))

lemma obj_cases:
  obtains (non_collection) "non_collection obj" | (coll) "is_collection obj" | (untyped) "\<not> has_field obj ''type''"
  by (auto simp: non_collection_def)

lemma has_collection_False: "has_collection objs = Inr False \<Longrightarrow> list_all non_collection objs"
proof (induction objs)
  case Nil
  then show ?case by simp
next
  case (Cons obj objs)
  then show ?case
    by (cases obj rule: obj_cases)
      (simp_all add: has_collection_Cons_non_collection has_collection_Cons_found has_collection_Cons_untyped
        del: has_collection.simps(2))
qed

lemma has_collection_True:
  "has_collection objs = Inr True \<Longrightarrow>
   \<exists>pre c post. objs = pre @ c # post \<and> list_all non_collection pre \<and> is_collection c"
proof (induction objs)
  case Nil
  then show ?case by simp
next
  case (Cons obj objs)
  show ?case
  proof (cases obj rule: obj_cases)
    case non_collection
    with Cons obtain pre c post where "objs = pre @ c # post" "list_all non_collection pre" "is_collection c"
      by (auto simp: has_collection_Cons_non_collection simp del: has_collection.simps(2))
    with non_collection have "obj # objs = (obj # pre) @ c # post \<and> list_all non_collection (obj # pre) \<and> is_collection c"
      by simp
    then show ?thesis by blast
  next
    case coll
    then have "obj # objs = [] @ obj # objs \<and> list_all non_collection [] \<and> is_collection obj" by simp
    then show ?thesis by blast
  next
    case untyped
    with Cons.prems show ?thesis by (simp add: has_collection_Cons_untyped del: has_collection.simps(2))
  qed
qed

lemma field_JStr [simp]: "field (JStr x) key = None"
  by (simp add: field_def)

lemma py_iter_list:
  assumes "py_iter ov = Inr objs" "list_ex is_collection objs"
  shows "ov = JList objs"
  using assms by (cases ov) (auto simp: list_ex_iff is_collection_def)

subsection \<open>The whole function by cases\<close>

text \<open>
  Lines 33 to 58 with the working bundle named, then the function as a case distinction
  over the scan, the upgrade and the construction.
\<close>

lemma prelude:
  assumes b: "heap s bundle = JDict kvs" and a: "bundle \<noteq> nxt s"
  shows "(case upgrade_2_0 env bundle (nxt s) (copied bundle s) of
            (Some r, s2) \<Rightarrow> (r, s2)
          | (None, s2) \<Rightarrow>
              (case check_version bundle (nxt s) s2 of
                 Inl e \<Rightarrow> (Inl e, s2)
               | Inr s3 \<Rightarrow> build_collection env (nxt s) name version description s3)) =
         (case working_value env (heap s bundle) of
            Inl e \<Rightarrow> (Inl TypeError, started bundle (heap s bundle) [NoteUpgrading, ErrorUpgrade e] s)
          | Inr wb \<Rightarrow>
              build_collection env (nxt s) name version description
                (started bundle wb (prelude_diags (heap s bundle)) s))"
proof (cases "spec_version_of (JDict kvs) = JStr ''2.0''")
  case True
  then have sv: "map_of kvs ''spec_version'' = Some (JStr ''2.0'')"
    by (auto simp: spec_version_of_def field_def split: option.splits)
  show ?thesis
  proof (cases "step_bundle env (JDict kvs)")
    case (Inl e)
    have u: "upgrade_2_0 env bundle (nxt s) (copied bundle s) =
        (Some (Inl TypeError), started bundle (heap s bundle) [NoteUpgrading, ErrorUpgrade e] s)"
      using a by (simp add: upgrade_2_0_def copied_def started_def b sv Inl py_print_def
          traceback_print_exc_def Let_def)
    show ?thesis by (simp add: u[unfolded b] b working_value_def True Inl)
  next
    case (Inr wb)
    have u: "upgrade_2_0 env bundle (nxt s) (copied bundle s) =
        (None, started bundle wb [NoteUpgrading, NoteUpgraded] s)"
      using a by (simp add: upgrade_2_0_def copied_def started_def b sv Inr py_print_def Let_def)
    have c: "check_version bundle (nxt s) (started bundle wb [NoteUpgrading, NoteUpgraded] s) =
        Inr (started bundle wb [NoteUpgrading, NoteUpgraded] s)"
      using a by (simp add: check_version_def started_def b sv)
    show ?thesis by (simp add: u[unfolded b] c[unfolded b] b working_value_def True Inr prelude_diags_def)
  qed
next
  case False
  have u: "upgrade_2_0 env bundle (nxt s) (copied bundle s) = (None, started bundle (heap s bundle) [] s)"
    using a False
    by (cases "map_of kvs ''spec_version''")
      (simp_all add: upgrade_2_0_def copied_def started_def b spec_version_of_def field_def)
  have c: "check_version bundle (nxt s) (started bundle (heap s bundle) [] s) =
        Inr (started bundle (heap s bundle) (prelude_diags (heap s bundle)) s)"
    using a False
    by (cases "map_of kvs ''spec_version''")
      (simp_all add: check_version_def started_def b spec_version_of_def field_def prelude_diags_def
        py_print_def)
  show ?thesis using False by (simp add: u[unfolded b] c[unfolded b] b working_value_def)
qed

lemma stix_cases:
  assumes a: "bundle \<noteq> nxt s"
  shows "stix_to_collection env bundle name version description s =
    (case py_getitem (heap s bundle) ''objects'' of
       Inl e \<Rightarrow> (Inl e, copied bundle s)
     | Inr objects \<Rightarrow>
         (case py_iter objects of
            Inl e \<Rightarrow> (Inl e, copied bundle s)
          | Inr objs \<Rightarrow>
              (case has_collection objs of
                 Inl e \<Rightarrow> (Inl e, copied bundle s)
               | Inr True \<Rightarrow> (Inr (Ref bundle), copied bundle s)
               | Inr False \<Rightarrow>
                   (case working_value env (heap s bundle) of
                      Inl e \<Rightarrow> (Inl TypeError,
                         started bundle (heap s bundle) [NoteUpgrading, ErrorUpgrade e] s)
                    | Inr wb \<Rightarrow>
                        build_collection env (nxt s) name version description
                          (started bundle wb (prelude_diags (heap s bundle)) s)))))"
proof -
  have h: "heap (copied bundle s) (nxt s) = heap s bundle" by (simp add: copied_def)
  have unf: "stix_to_collection env bundle name version description s =
    (case py_getitem (heap s bundle) ''objects'' of
       Inl e \<Rightarrow> (Inl e, copied bundle s)
     | Inr objects \<Rightarrow>
         (case py_iter objects of
            Inl e \<Rightarrow> (Inl e, copied bundle s)
          | Inr objs \<Rightarrow>
              (case has_collection objs of
                 Inl e \<Rightarrow> (Inl e, copied bundle s)
               | Inr True \<Rightarrow> (Inr (Ref bundle), copied bundle s)
               | Inr False \<Rightarrow>
                   (case upgrade_2_0 env bundle (nxt s) (copied bundle s) of
                      (Some r, s2) \<Rightarrow> (r, s2)
                    | (None, s2) \<Rightarrow>
                       (case check_version bundle (nxt s) s2 of
                          Inl e \<Rightarrow> (Inl e, s2)
                        | Inr s3 \<Rightarrow> build_collection env (nxt s) name version description s3)))))"
    unfolding stix_to_collection_def deepcopy_def copied_def[symmetric] Let_def prod.case h ..
  show ?thesis
  proof (cases "heap s bundle")
    case (JDict kvs)
    show ?thesis unfolding unf prelude[OF JDict a] ..
  qed (simp_all add: unf)
qed

lemma new_collection_init [simp]:
  "rc_x_mitre_contents (new_collection env name version description) = []"
  "rc_object_marking_refs (new_collection env name version description) = []"
  "rc_created_by_ref (new_collection env name version description) = JStr []"
  by (simp_all add: new_collection_def Let_def)

lemma build_ok:
  assumes objs: "field (heap s w) ''objects'' = Some (JList objs)" and ok: "list_all aggregable objs"
  shows "build_collection env w name version description s =
     (Inr (Ref w),
      s\<lparr>heap := (heap s)(w := with_item (heap s w) ''objects''
                     (JList (collection_json (built env name version description objs) # objs))),
        out := out s @ conflict_notes (created_by_values objs)\<rparr>)"
proof -
  from objs have g: "py_getitem (heap s w) ''objects'' = Inr (JList objs)"
    by (simp add: field_simps)
  from aggregate_ok[OF ok, of "new_collection env name version description" s]
  obtain raw' where agg: "aggregate objs (new_collection env name version description) s =
       (Normal raw', s\<lparr>out := out s @ conflict_notes (created_by_values objs)\<rparr>)"
    and raw': "raw' = built env name version description objs"
    by (auto simp: built_def fold_notes_first fold_author_first)
  show ?thesis
    by (simp add: build_collection_def g agg raw' Let_def)
qed

lemma build_missing:
  assumes objs: "field (heap s w) ''objects'' = Some (JList (pre @ obj # post))"
    and pre: "list_all aggregable pre" and c: "is_content obj"
    and miss: "\<not> (has_field obj ''id'' \<and> has_field obj ''modified'')"
  shows "build_collection env w name version description s =
     (Inr PyNone,
      s\<lparr>out := out s @ conflict_notes (created_by_values pre) @
        [ErrorMissingField obj (KeyError (if has_field obj ''id'' then ''modified'' else ''id''))]\<rparr>)"
proof -
  from objs have g: "py_getitem (heap s w) ''objects'' = Inr (JList (pre @ obj # post))"
    by (simp add: field_simps)
  show ?thesis
    by (simp add: build_collection_def g Let_def aggregate_missing[OF pre c miss] fold_notes_first
        del: aggregate.simps)
qed

subsection \<open>What a successful construction implies\<close>

lemma aggregate_body_not_iterable:
  assumes "is_content obj" "has_field obj ''id''" "has_field obj ''modified''" "\<not> markings_iterable obj"
  shows "\<exists>e. aggregate_body obj raw s = (Uncaught e, s)"
proof -
  from assms(1) obtain kvs ty where obj: "obj = JDict kvs" and ty: "map_of kvs ''type'' = Some ty"
    "ty \<noteq> JStr ''marking-definition''" by (rule content_dict)
  from assms(2) obtain i where i: "map_of kvs ''id'' = Some i"
    by (auto simp: obj has_field_def field_def split: option.splits)
  from assms(3) obtain m where m: "map_of kvs ''modified'' = Some m"
    by (auto simp: obj has_field_def field_def split: option.splits)
  from assms(4) obtain v e where v: "map_of kvs ''object_marking_refs'' = Some v" "py_iter v = Inl e"
    by (auto simp: markings_iterable_def obj field_def split: option.splits sum.splits)
  have ac: "append_contents (JDict kvs) raw = Inr (raw\<lparr>rc_x_mitre_contents := rc_x_mitre_contents raw @
      [JDict [(''object_ref'', i), (''object_modified'', m)]]\<rparr>)"
    by (simp add: append_contents_def i m)
  have cm: "collect_markings (JDict kvs) r = Inl e" for r
    by (simp add: collect_markings_def key_in_keys v)
  show ?thesis
    by (simp add: aggregate_body_def obj ty ac cm)
qed

lemma aggregate_body_Normal:
  assumes "aggregate_body obj raw s = (Normal raw', s')"
  shows "aggregable obj"
proof (rule ccontr)
  assume n: "\<not> aggregable obj"
  show False
  proof (cases "has_field obj ''type''")
    case False
    from aggregate_body_untyped[OF False, of raw s] assms show False by auto
  next
    case True
    with n have c: "is_content obj" by (auto simp: aggregable_def)
    show False
    proof (cases "has_field obj ''id'' \<and> has_field obj ''modified''")
      case False
      from aggregate_body_missing[OF c False, of raw s] assms show False by simp
    next
      case f: True
      with n True c have "\<not> markings_iterable obj" by (auto simp: aggregable_def)
      from aggregate_body_not_iterable[OF c _ _ this, of raw s] f assms show False by auto
    qed
  qed
qed

lemma aggregate_Normal:
  "aggregate objs raw s = (Normal raw', s') \<Longrightarrow> list_all aggregable objs"
proof (induction objs arbitrary: raw s)
  case Nil
  then show ?case by simp
next
  case (Cons obj objs)
  obtain r1 s1 where b: "aggregate_body obj raw s = (r1, s1)" by (cases "aggregate_body obj raw s")
  show ?case
  proof (cases r1)
    case (Normal raw1)
    with Cons.prems b have "aggregate objs raw1 s1 = (Normal raw', s')" by simp
    from Cons.IH[OF this] aggregate_body_Normal[OF b[unfolded Normal]] show ?thesis by simp
  next
    case ReturnNone
    with Cons.prems b show ?thesis by simp
  next
    case (Uncaught e)
    with Cons.prems b show ?thesis by simp
  qed
qed

lemma build_frame:
  assumes "build_collection env w name version description s = (r, s')"
  shows "(\<forall>a. a \<noteq> w \<longrightarrow> heap s' a = heap s a) \<and> nxt s' = nxt s \<and> (\<forall>a. r = Inr (Ref a) \<longrightarrow> a = w)"
proof (cases "py_getitem (heap s w) ''objects''")
  case (Inl e)
  with assms show ?thesis by (auto simp: build_collection_def)
next
  case ov: (Inr ov)
  show ?thesis
  proof (cases "py_iter ov")
    case (Inl e)
    with assms ov show ?thesis by (auto simp: build_collection_def)
  next
    case objs: (Inr objs)
    obtain r1 s1 where agg: "aggregate objs (new_collection env name version description) s = (r1, s1)"
      by (cases "aggregate objs (new_collection env name version description) s")
    from aggregate_frame[OF agg] have f: "heap s1 = heap s" "nxt s1 = nxt s" by simp_all
    show ?thesis
    proof (cases r1)
      case (Normal raw)
      with assms ov objs agg f show ?thesis
        by (cases "py_insert0 ov (collection_json raw)") (auto simp: build_collection_def Let_def)
    next
      case ReturnNone
      with assms ov objs agg f show ?thesis by (auto simp: build_collection_def Let_def)
    next
      case (Uncaught e)
      with assms ov objs agg f show ?thesis by (auto simp: build_collection_def Let_def)
    qed
  qed
qed

lemma build_success:
  assumes "build_collection env w name version description s = (Inr (Ref w'), s')"
  shows "\<exists>objs. field (heap s w) ''objects'' = Some (JList objs) \<and> list_all aggregable objs"
proof (cases "py_getitem (heap s w) ''objects''")
  case (Inl e)
  with assms show ?thesis by (simp add: build_collection_def)
next
  case ov: (Inr ov)
  show ?thesis
  proof (cases "py_iter ov")
    case (Inl e)
    with assms ov show ?thesis by (simp add: build_collection_def)
  next
    case objs: (Inr objs)
    obtain r1 s1 where agg: "aggregate objs (new_collection env name version description) s = (r1, s1)"
      by (cases "aggregate objs (new_collection env name version description) s")
    from aggregate_frame[OF agg] have f: "heap s1 = heap s" "nxt s1 = nxt s" by simp_all
    show ?thesis
    proof (cases r1)
      case (Normal raw)
      with assms ov objs agg f have "\<exists>xs. py_insert0 ov (collection_json raw) = Inr xs"
        by (cases "py_insert0 ov (collection_json raw)") (auto simp: build_collection_def Let_def)
      then obtain xs where "ov = JList xs" by (cases ov) auto
      with objs have "ov = JList objs" by simp
      with ov aggregate_Normal[OF agg[unfolded Normal]] show ?thesis by (simp add: field_simps)
    next
      case ReturnNone
      with assms ov objs agg f show ?thesis by (auto simp: build_collection_def Let_def)
    next
      case (Uncaught e)
      with assms ov objs agg f show ?thesis by (auto simp: build_collection_def Let_def)
    qed
  qed
qed

subsection \<open>The fields of the result\<close>

lemma field_with_item:
  "field b k0 = Some x \<Longrightarrow>
   field (with_item b key v) key' = (if key' = key then Some v else field b key')"
  by (cases b) (auto simp: field_def update_conv' split: option.splits)

lemma field_with_item_same:
  "field b key = Some x \<Longrightarrow> field (with_item b key v) key = Some v"
  by (simp add: field_with_item)

lemma bundle_objects_with_item:
  "field b ''objects'' = Some x \<Longrightarrow> bundle_objects (with_item b ''objects'' (JList xs)) = xs"
  by (simp add: bundle_objects_def field_with_item_same)

lemma collection_fields:
  "field (collection_json raw) ''type'' = Some (JStr (rc_type raw))"
  "field (collection_json raw) ''created_by_ref'' = Some (rc_created_by_ref raw)"
  "field (collection_json raw) ''created'' = Some (JStr (rc_created raw))"
  "field (collection_json raw) ''modified'' = Some (JStr (rc_modified raw))"
  "field (collection_json raw) ''object_marking_refs'' = Some (JList (rc_object_marking_refs raw))"
  "field (collection_json raw) ''x_mitre_contents'' = Some (JList (rc_x_mitre_contents raw))"
  by (simp_all add: collection_json_def field_def)

lemma is_collection_built: "is_collection (collection_json (built env name version description objs))"
  by (simp add: is_collection_def collection_fields built_def new_collection_def Let_def)

subsection \<open>The four ways the call ends\<close>

lemma stix_outcome:
  assumes ne: "bundle \<noteq> nxt s"
  obtains
    (raised) e where "stix_to_collection env bundle name version description s = (Inl e, copied bundle s)"
  | (found) objs where "field (heap s bundle) ''objects'' = Some (JList objs)"
      "has_collection objs = Inr True"
      "stix_to_collection env bundle name version description s = (Inr (Ref bundle), copied bundle s)"
  | (upgrade_failed) e where "working_value env (heap s bundle) = Inl e"
      "stix_to_collection env bundle name version description s =
         (Inl TypeError, started bundle (heap s bundle) [NoteUpgrading, ErrorUpgrade e] s)"
  | (build) wb where "working_value env (heap s bundle) = Inr wb"
      "list_all non_collection (bundle_objects (heap s bundle))"
      "stix_to_collection env bundle name version description s =
         build_collection env (nxt s) name version description
           (started bundle wb (prelude_diags (heap s bundle)) s)"
proof (cases "py_getitem (heap s bundle) ''objects''")
  case (Inl e)
  then show ?thesis using raised by (simp add: stix_cases[OF ne])
next
  case ov: (Inr ov)
  show ?thesis
  proof (cases "py_iter ov")
    case (Inl e)
    then show ?thesis using raised ov by (simp add: stix_cases[OF ne])
  next
    case objs: (Inr objs)
    show ?thesis
    proof (cases "has_collection objs")
      case (Inl e)
      then show ?thesis using raised ov objs by (simp add: stix_cases[OF ne])
    next
      case (Inr b)
      show ?thesis
      proof (cases b)
        case True
        with Inr have hc: "has_collection objs = Inr True" by simp
        from has_collection_True[OF hc] have "list_ex is_collection objs"
          by (auto simp: list_ex_iff)
        from py_iter_list[OF objs this] ov have "field (heap s bundle) ''objects'' = Some (JList objs)"
          by (simp add: field_simps)
        then show ?thesis using found hc ov objs by (simp add: stix_cases[OF ne])
      next
        case False
        with Inr have hc: "has_collection objs = Inr False" by simp
        have pl: "list_all non_collection (bundle_objects (heap s bundle))"
        proof (cases ov)
          case (JList xs)
          with objs ov has_collection_False[OF hc] show ?thesis
            by (simp add: bundle_objects_def field_def)
        qed (use ov in \<open>simp_all add: bundle_objects_def field_def\<close>)
        show ?thesis
        proof (cases "working_value env (heap s bundle)")
          case (Inl e)
          then show ?thesis using upgrade_failed ov objs hc by (simp add: stix_cases[OF ne])
        next
          case (Inr wb)
          then show ?thesis using build pl ov objs hc by (simp add: stix_cases[OF ne])
        qed
      qed
    qed
  qed
qed



lemma started_heap [simp]:
  "heap (started bundle wb ds s) = (heap s)(nxt s := wb)"
  "nxt (started bundle wb ds s) = Suc (nxt s)"
  "out (started bundle wb ds s) = out s @ ds"
  by (simp_all add: started_def)

lemma stix_build:
  assumes a: "bundle < nxt s"
    and inp: "field (heap s bundle) ''objects'' = Some (JList objs0)"
    and nc: "list_all non_collection objs0"
    and wv: "working_value env (heap s bundle) = Inr wb"
    and o: "field wb ''objects'' = Some (JList objs)"
    and ok: "list_all aggregable objs"
  shows "stix_to_collection env bundle name version description s =
    (Inr (Ref (nxt s)),
     started bundle
       (with_item wb ''objects'' (JList (collection_json (built env name version description objs) # objs)))
       (prelude_diags (heap s bundle) @ conflict_notes (created_by_values objs)) s)"
proof -
  from a have ne: "bundle \<noteq> nxt s" by simp
  from inp have g: "py_getitem (heap s bundle) ''objects'' = Inr (JList objs0)"
    by (simp add: field_simps)
  have o': "field (heap (started bundle wb (prelude_diags (heap s bundle)) s) (nxt s)) ''objects'' =
      Some (JList objs)"
    using o by simp
  have "stix_to_collection env bundle name version description s =
      build_collection env (nxt s) name version description
        (started bundle wb (prelude_diags (heap s bundle)) s)"
    by (simp add: stix_cases[OF ne] g has_collection_non_collection[OF nc] wv)
  also have "\<dots> = (Inr (Ref (nxt s)),
     started bundle
       (with_item wb ''objects'' (JList (collection_json (built env name version description objs) # objs)))
       (prelude_diags (heap s bundle) @ conflict_notes (created_by_values objs)) s)"
    unfolding build_ok[OF o' ok] by (simp add: started_def)
  finally show ?thesis .
qed

lemma stix_success:
  assumes a: "bundle < nxt s"
    and run: "stix_to_collection env bundle name version description s = (Inr (Ref w), s')"
    and nocoll: "\<not> list_ex is_collection (bundle_objects (heap s bundle))"
  obtains wb objs where "working_value env (heap s bundle) = Inr wb"
    "field wb ''objects'' = Some (JList objs)" "list_all aggregable objs" "w = nxt s"
    "s' = started bundle
       (with_item wb ''objects'' (JList (collection_json (built env name version description objs) # objs)))
       (prelude_diags (heap s bundle) @ conflict_notes (created_by_values objs)) s"
  using a[THEN less_imp_neq]
proof (cases rule: stix_outcome[where env = env and name = name and version = version
        and description = description])
  case (raised e)
  with run show ?thesis by simp
next
  case (found objs)
  from has_collection_True[OF found(2)] have "list_ex is_collection objs"
    by (auto simp: list_ex_iff)
  with found(1) nocoll show ?thesis by (simp add: bundle_objects_def)
next
  case (upgrade_failed e)
  with run show ?thesis by simp
next
  case (build wb)
  with run have b: "build_collection env (nxt s) name version description
           (started bundle wb (prelude_diags (heap s bundle)) s) = (Inr (Ref w), s')" by simp
  from build_frame[OF b] have w: "w = nxt s" by simp
  from build_success[OF b] obtain objs where
    o: "field (heap (started bundle wb (prelude_diags (heap s bundle)) s) (nxt s)) ''objects'' = Some (JList objs)"
    and ok: "list_all aggregable objs" by blast
  from o have o': "field wb ''objects'' = Some (JList objs)" by simp
  from b[unfolded build_ok[OF o ok]]
  have "s' = started bundle
       (with_item wb ''objects'' (JList (collection_json (built env name version description objs) # objs)))
       (prelude_diags (heap s bundle) @ conflict_notes (created_by_values objs)) s"
    by (auto simp: started_def)
  with build(1) o' ok w show ?thesis by (rule that)
qed

lemma built_fields:
  "rc_x_mitre_contents (built env name version description objs) =
     map (\<lambda>obj. the (contents_entry obj)) (filter is_content objs)"
  "rc_object_marking_refs (built env name version description objs) =
     add_markings (concat (map marking_refs (filter is_content objs))) []"
  "rc_created_by_ref (built env name version description objs) = first_author (created_by_values objs)"
  "rc_created (built env name version description objs) = strftime (datetime_now (host_clock env))"
  "rc_modified (built env name version description objs) = strftime (datetime_now (host_clock env))"
  by (simp_all add: built_def new_collection_def Let_def)

lemma entries_of_aggregable:
  "list_all aggregable objs \<Longrightarrow>
   map Some (map (\<lambda>obj. the (contents_entry obj)) (filter is_content objs)) =
   map contents_entry (filter is_content objs)"
  by (induction objs)
    (auto simp: aggregable_def has_field_def contents_entry_def split: option.splits)

lemma working_value_same:
  "working_value env b = Inr wb \<Longrightarrow> spec_version_of b \<noteq> JStr ''2.0'' \<Longrightarrow> wb = b"
  by (simp add: working_value_def)

subsection \<open>The timestamp\<close>

lemma length_digits [simp]: "length (digits w n) = w"
  by (induction w arbitrary: n) simp_all

lemma digit_is_digit: "digit d \<in> set ''0123456789''"
  unfolding digit_def by (rule nth_mem) simp

lemma digits_are_digits: "set (digits w n) \<subseteq> set ''0123456789''"
proof (induction w arbitrary: n)
  case 0
  show ?case by simp
next
  case (Suc w)
  from Suc[of "n div 10"] digit_is_digit[of n] show ?case by simp
qed

lemma strftime_shape:
  "\<exists>Y M D h m s f.
     strftime t = Y @ ''-'' @ M @ ''-'' @ D @ ''T'' @ h @ '':'' @ m @ '':'' @ s @ ''.'' @ f @ ''Z'' \<and>
     length Y = 4 \<and> length M = 2 \<and> length D = 2 \<and> length h = 2 \<and> length m = 2 \<and>
     length s = 2 \<and> length f = 6 \<and>
     set (Y @ M @ D @ h @ m @ s @ f) \<subseteq> set ''0123456789''"
proof -
  have "strftime t = digits 4 (year t) @ ''-'' @ digits 2 (month t) @ ''-'' @ digits 2 (day t) @ ''T'' @
     digits 2 (hour t) @ '':'' @ digits 2 (minute t) @ '':'' @ digits 2 (second t) @ ''.'' @
     digits 6 (microsecond t) @ ''Z''"
    by (simp add: strftime_def)
  moreover have "set (digits 4 (year t) @ digits 2 (month t) @ digits 2 (day t) @ digits 2 (hour t) @
      digits 2 (minute t) @ digits 2 (second t) @ digits 6 (microsecond t)) \<subseteq> set ''0123456789''"
    using digits_are_digits by (simp del: set_simps digits.simps)
  ultimately show ?thesis using length_digits by blast
qed

lemma created_equals_modified:
  "rc_created (new_collection env name version description) =
     strftime (datetime_now (host_clock env)) \<and>
   rc_modified (new_collection env name version description) =
     rc_created (new_collection env name version description)"
  by (simp add: new_collection_def Let_def)

section \<open>The claims\<close>

text \<open>
  Claim C1, as amended. Take a bundle none of whose objects is a collection object, each
  object having a type, and let the scanned bundle be the input itself, or, for a
  \<^verbatim>\<open>spec_version\<close> of 2.0, the bundle the elevator returned. If every content object of
  the scanned bundle has \<^verbatim>\<open>id\<close> and \<^verbatim>\<open>modified\<close> (and marking references that can be
  iterated), the call returns a new bundle whose first object is the collection object,
  followed by the scanned objects in their order, and \<^verbatim>\<open>x_mitre_contents\<close> holds exactly
  the entries of the content objects, one each, in that order. Unless the
  \<^verbatim>\<open>spec_version\<close> is 2.0 the scanned objects are the objects of the input.
\<close>

theorem contents_index_scanned_objects:
  assumes "bundle < nxt s"
    and "field (heap s bundle) ''objects'' = Some (JList objs0)"
    and "list_all non_collection objs0"
    and "working_value env (heap s bundle) = Inr wb"
    and "field wb ''objects'' = Some (JList objs)"
    and "list_all aggregable objs"
  shows "fst (stix_to_collection env bundle name version description s) = Inr (Ref (nxt s)) \<and>
    (\<exists>coll entries.
       bundle_objects (heap (snd (stix_to_collection env bundle name version description s)) (nxt s)) =
         coll # objs \<and>
       is_collection coll \<and>
       field coll ''x_mitre_contents'' = Some (JList entries) \<and>
       map Some entries = map contents_entry (filter is_content objs)) \<and>
    (spec_version_of (heap s bundle) \<noteq> JStr ''2.0'' \<longrightarrow> objs = objs0)"
proof -
  let ?coll = "collection_json (built env name version description objs)"
  note r = stix_build[OF assms, of name version description]
  have "bundle_objects (heap (snd (stix_to_collection env bundle name version description s)) (nxt s)) =
      ?coll # objs"
    by (simp add: r bundle_objects_with_item[OF assms(5)])
  moreover have "is_collection ?coll" by (rule is_collection_built)
  moreover have "field ?coll ''x_mitre_contents'' =
      Some (JList (map (\<lambda>obj. the (contents_entry obj)) (filter is_content objs)))"
    by (simp add: collection_fields built_fields)
  moreover note entries_of_aggregable[OF assms(6)]
  moreover have "spec_version_of (heap s bundle) \<noteq> JStr ''2.0'' \<longrightarrow> objs = objs0"
    using working_value_same[OF assms(4)] assms(2,5) by auto
  ultimately show ?thesis by (auto simp: r)
qed

text \<open>
  The theorem at a 2.1 bundle of three content objects and one marking definition.
\<close>

theorem contents_index_scanned_objects_witness:
  "((0::nat) < nxt (ex_state (ex_bundle (Some ''2.1'') [ex_a, ex_m, ex_b, ex_c])) \<and>
    field (heap (ex_state (ex_bundle (Some ''2.1'') [ex_a, ex_m, ex_b, ex_c])) 0) ''objects'' =
      Some (JList [ex_a, ex_m, ex_b, ex_c]) \<and>
    list_all non_collection [ex_a, ex_m, ex_b, ex_c] \<and>
    working_value (ex_env ex_failing) (heap (ex_state (ex_bundle (Some ''2.1'') [ex_a, ex_m, ex_b, ex_c])) 0) =
      Inr (ex_bundle (Some ''2.1'') [ex_a, ex_m, ex_b, ex_c]) \<and>
    list_all aggregable [ex_a, ex_m, ex_b, ex_c]) \<and>
   fst (stix_to_collection (ex_env ex_failing) 0 ''Enterprise'' ''14.1'' None
          (ex_state (ex_bundle (Some ''2.1'') [ex_a, ex_m, ex_b, ex_c]))) = Inr (Ref 1) \<and>
   (\<exists>coll.
      bundle_objects (heap (snd (stix_to_collection (ex_env ex_failing) 0 ''Enterprise'' ''14.1'' None
          (ex_state (ex_bundle (Some ''2.1'') [ex_a, ex_m, ex_b, ex_c])))) 1) =
        [coll, ex_a, ex_m, ex_b, ex_c] \<and>
      is_collection coll \<and>
      field coll ''x_mitre_contents'' = Some (JList
        [JDict [(''object_ref'', JStr ''attack-pattern--a''),
                (''object_modified'', JStr ''2023-01-01T00:00:00.000Z'')],
         JDict [(''object_ref'', JStr ''malware--b''),
                (''object_modified'', JStr ''2023-02-02T00:00:00.000Z'')],
         JDict [(''object_ref'', JStr ''tool--c''),
                (''object_modified'', JStr ''2023-03-03T00:00:00.000Z'')]]))"
proof -
  let ?b = "ex_bundle (Some ''2.1'') [ex_a, ex_m, ex_b, ex_c]"
  let ?s = "ex_state ?b"
  have h: "(0::nat) < nxt ?s"
    "field (heap ?s 0) ''objects'' = Some (JList [ex_a, ex_m, ex_b, ex_c])"
    "list_all non_collection [ex_a, ex_m, ex_b, ex_c]"
    "working_value (ex_env ex_failing) (heap ?s 0) = Inr ?b"
    "field ?b ''objects'' = Some (JList [ex_a, ex_m, ex_b, ex_c])"
    "list_all aggregable [ex_a, ex_m, ex_b, ex_c]"
    by (simp_all add: ex_state_def ex_bundle_def field_def non_collection_def is_collection_def
        has_field_def working_value_def spec_version_of_def aggregable_def is_content_def
        is_marking_definition_def markings_iterable_def ex_a_def ex_m_def ex_b_def ex_c_def)
  have e: "map contents_entry (filter is_content [ex_a, ex_m, ex_b, ex_c]) =
     map Some [JDict [(''object_ref'', JStr ''attack-pattern--a''),
                (''object_modified'', JStr ''2023-01-01T00:00:00.000Z'')],
         JDict [(''object_ref'', JStr ''malware--b''),
                (''object_modified'', JStr ''2023-02-02T00:00:00.000Z'')],
         JDict [(''object_ref'', JStr ''tool--c''),
                (''object_modified'', JStr ''2023-03-03T00:00:00.000Z'')]]"
    by (simp add: contents_entry_def is_content_def is_marking_definition_def has_field_def field_def
        ex_a_def ex_m_def ex_b_def ex_c_def)
  have n: "nxt ?s = 1" by (simp add: ex_state_def)
  from contents_index_scanned_objects[OF h, of "''Enterprise''" "''14.1''" None]
  show ?thesis unfolding e n map_eq_conv[symmetric] using h
    by (auto simp: inj_map_eq_map[OF inj_Some])
qed

text \<open>
  The claim as stated, for every bundle without a collection object, fails on a 2.0
  bundle, whose one object has \<^verbatim>\<open>type\<close>, \<^verbatim>\<open>id\<close> and \<^verbatim>\<open>modified\<close>: when the upgrade
  raises, no bundle is returned; when the upgrade adds an object, \<^verbatim>\<open>x_mitre_contents\<close>
  has an entry that belongs to no object of the input.
\<close>

theorem contents_upgrade_failure_counterexample:
  "bundle_objects (ex_bundle (Some ''2.0'') [ex_a]) = [ex_a] \<and>
   \<not> is_collection ex_a \<and> is_content ex_a \<and> has_field ex_a ''id'' \<and> has_field ex_a ''modified'' \<and>
   fst (stix_to_collection (ex_env ex_failing) 0 ''Enterprise'' ''14.1'' None
          (ex_state (ex_bundle (Some ''2.0'') [ex_a]))) = Inl TypeError \<and>
   fst (stix_to_collection (ex_env ex_extending) 0 ''Enterprise'' ''14.1'' None
          (ex_state (ex_bundle (Some ''2.0'') [ex_a]))) = Inr (Ref 1) \<and>
   field (hd (bundle_objects (heap (snd (stix_to_collection (ex_env ex_extending) 0 ''Enterprise''
          ''14.1'' None (ex_state (ex_bundle (Some ''2.0'') [ex_a])))) 1))) ''x_mitre_contents'' =
     Some (JList
       [JDict [(''object_ref'', JStr ''attack-pattern--a''),
               (''object_modified'', JStr ''2023-01-01T00:00:00.000Z'')],
        JDict [(''object_ref'', JStr ''tool--c''),
               (''object_modified'', JStr ''2023-03-03T00:00:00.000Z'')]])"
proof -
  have "bundle_objects (ex_bundle (Some ''2.0'') [ex_a]) = [ex_a] \<and>
   \<not> is_collection ex_a \<and> is_content ex_a \<and> has_field ex_a ''id'' \<and> has_field ex_a ''modified''"
    by (simp add: bundle_objects_def ex_bundle_def field_def is_collection_def is_content_def
        is_marking_definition_def has_field_def ex_a_def)
  moreover have "fst (stix_to_collection (ex_env ex_failing) 0 ''Enterprise'' ''14.1'' None
          (ex_state (ex_bundle (Some ''2.0'') [ex_a]))) = Inl TypeError"
    by code_simp
  moreover have "fst (stix_to_collection (ex_env ex_extending) 0 ''Enterprise'' ''14.1'' None
          (ex_state (ex_bundle (Some ''2.0'') [ex_a]))) = Inr (Ref 1)"
    by code_simp
  moreover have "field (hd (bundle_objects (heap (snd (stix_to_collection (ex_env ex_extending) 0
          ''Enterprise'' ''14.1'' None (ex_state (ex_bundle (Some ''2.0'') [ex_a])))) 1)))
          ''x_mitre_contents'' =
     Some (JList
       [JDict [(''object_ref'', JStr ''attack-pattern--a''),
               (''object_modified'', JStr ''2023-01-01T00:00:00.000Z'')],
        JDict [(''object_ref'', JStr ''tool--c''),
               (''object_modified'', JStr ''2023-03-03T00:00:00.000Z'')]])"
    by code_simp
  ultimately show ?thesis by simp
qed

text \<open>
  Claim C2. Whatever the call does (return a new bundle, return the original bundle,
  return \<^verbatim>\<open>None\<close> or raise), the object the caller passed holds the same value
  afterwards, and so does every other object that existed before the call; a returned
  reference is the caller's own or that of the deep copy made at line 29.
\<close>

theorem original_bundle_never_mutated:
  assumes "bundle < nxt s"
    and "stix_to_collection env bundle name version description s = (r, s')"
  shows "heap s' bundle = heap s bundle \<and>
         (\<forall>a<nxt s. heap s' a = heap s a) \<and>
         (\<forall>w. r = Inr (Ref w) \<longrightarrow> w = bundle \<or> w = nxt s)"
proof -
  from assms(1) have ne: "bundle \<noteq> nxt s" by simp
  have "(\<forall>a<nxt s. heap s' a = heap s a) \<and> (\<forall>w. r = Inr (Ref w) \<longrightarrow> w = bundle \<or> w = nxt s)"
    using ne
  proof (cases rule: stix_outcome[where env = env and name = name and version = version
        and description = description])
    case (raised e)
    with assms(2) show ?thesis by (auto simp: copied_def)
  next
    case (found objs)
    with assms(2) show ?thesis by (auto simp: copied_def)
  next
    case (upgrade_failed e)
    with assms(2) show ?thesis by (auto simp: started_def)
  next
    case (build wb)
    with assms(2) have "build_collection env (nxt s) name version description
           (started bundle wb (prelude_diags (heap s bundle)) s) = (r, s')" by simp
    from build_frame[OF this] show ?thesis by (auto simp: started_def)
  qed
  with assms(1) show ?thesis by simp
qed

text \<open>
  The theorem at a 2.1 bundle, for which a new bundle is returned.
\<close>

theorem original_bundle_never_mutated_witness:
  "(0::nat) < nxt (ex_state (ex_bundle (Some ''2.1'') [ex_a, ex_m, ex_b, ex_c])) \<and>
   heap (snd (stix_to_collection (ex_env Inr) 0 ''Enterprise'' ''14.1'' None
               (ex_state (ex_bundle (Some ''2.1'') [ex_a, ex_m, ex_b, ex_c])))) 0 =
     ex_bundle (Some ''2.1'') [ex_a, ex_m, ex_b, ex_c] \<and>
   fst (stix_to_collection (ex_env Inr) 0 ''Enterprise'' ''14.1'' None
               (ex_state (ex_bundle (Some ''2.1'') [ex_a, ex_m, ex_b, ex_c]))) = Inr (Ref 1)"
proof -
  have h: "(0::nat) < nxt (ex_state (ex_bundle (Some ''2.1'') [ex_a, ex_m, ex_b, ex_c]))"
    by (simp add: ex_state_def)
  have r: "fst (stix_to_collection (ex_env Inr) 0 ''Enterprise'' ''14.1'' None
               (ex_state (ex_bundle (Some ''2.1'') [ex_a, ex_m, ex_b, ex_c]))) = Inr (Ref 1)"
    by code_simp
  from original_bundle_never_mutated[OF h surjective_pairing]
  have "heap (snd (stix_to_collection (ex_env Inr) 0 ''Enterprise'' ''14.1'' None
               (ex_state (ex_bundle (Some ''2.1'') [ex_a, ex_m, ex_b, ex_c])))) 0 =
        heap (ex_state (ex_bundle (Some ''2.1'') [ex_a, ex_m, ex_b, ex_c])) 0"
    by blast
  with h r show ?thesis by (simp add: ex_state_def)
qed



text \<open>
  Claim C4, as amended. Take a bundle none of whose objects is a collection object, each
  object having a type, and let the scanned bundle be the input itself, or, for a
  \<^verbatim>\<open>spec_version\<close> of 2.0, the bundle the elevator returned. If some content object of
  the scanned bundle lacks \<^verbatim>\<open>id\<close> or \<^verbatim>\<open>modified\<close>, the objects before the first such
  object being well formed, the call returns \<^verbatim>\<open>None\<close>, the original bundle is
  unchanged, and the last diagnostic printed names that object and the missing field
  (\<^verbatim>\<open>id\<close> when it is absent, \<^verbatim>\<open>modified\<close> otherwise).
\<close>

theorem missing_field_returns_None:
  assumes "bundle < nxt s"
    and "field (heap s bundle) ''objects'' = Some (JList objs0)"
    and "list_all non_collection objs0"
    and "working_value env (heap s bundle) = Inr wb"
    and "field wb ''objects'' = Some (JList (pre @ obj # post))"
    and "list_all aggregable pre"
    and "is_content obj"
    and "\<not> (has_field obj ''id'' \<and> has_field obj ''modified'')"
  shows "fst (stix_to_collection env bundle name version description s) = Inr PyNone \<and>
    heap (snd (stix_to_collection env bundle name version description s)) bundle = heap s bundle \<and>
    out (snd (stix_to_collection env bundle name version description s)) =
      out s @ prelude_diags (heap s bundle) @ conflict_notes (created_by_values pre) @
      [ErrorMissingField obj (KeyError (if has_field obj ''id'' then ''modified'' else ''id''))] \<and>
    (spec_version_of (heap s bundle) \<noteq> JStr ''2.0'' \<longrightarrow> pre @ obj # post = objs0)"
proof -
  from assms(1) have ne: "bundle \<noteq> nxt s" by simp
  from assms(2) have g: "py_getitem (heap s bundle) ''objects'' = Inr (JList objs0)"
    by (simp add: field_simps)
  have o: "field (heap (started bundle wb (prelude_diags (heap s bundle)) s) (nxt s)) ''objects'' =
      Some (JList (pre @ obj # post))"
    using assms(5) by simp
  have "stix_to_collection env bundle name version description s =
      build_collection env (nxt s) name version description
        (started bundle wb (prelude_diags (heap s bundle)) s)"
    by (simp add: stix_cases[OF ne] g has_collection_non_collection[OF assms(3)] assms(4))
  then have r: "stix_to_collection env bundle name version description s =
     (Inr PyNone,
      (started bundle wb (prelude_diags (heap s bundle)) s)
       \<lparr>out := out (started bundle wb (prelude_diags (heap s bundle)) s) @
          conflict_notes (created_by_values pre) @
          [ErrorMissingField obj (KeyError (if has_field obj ''id'' then ''modified'' else ''id''))]\<rparr>)"
    by (simp only: build_missing[OF o assms(6,7,8)])
  have "spec_version_of (heap s bundle) \<noteq> JStr ''2.0'' \<longrightarrow> pre @ obj # post = objs0"
    using working_value_same[OF assms(4)] assms(2,5) by auto
  then show ?thesis using ne by (simp add: r)
qed

text \<open>
  The theorem at a bundle without \<^verbatim>\<open>spec_version\<close> whose third object has no
  \<^verbatim>\<open>modified\<close>.
\<close>

theorem missing_field_returns_None_witness:
  "((0::nat) < nxt (ex_state (ex_bundle None [ex_a, ex_b, ex_d, ex_c])) \<and>
    field (heap (ex_state (ex_bundle None [ex_a, ex_b, ex_d, ex_c])) 0) ''objects'' =
      Some (JList [ex_a, ex_b, ex_d, ex_c]) \<and>
    list_all non_collection [ex_a, ex_b, ex_d, ex_c] \<and>
    working_value (ex_env ex_failing) (heap (ex_state (ex_bundle None [ex_a, ex_b, ex_d, ex_c])) 0) =
      Inr (ex_bundle None [ex_a, ex_b, ex_d, ex_c]) \<and>
    list_all aggregable [ex_a, ex_b] \<and> is_content ex_d \<and>
    \<not> (has_field ex_d ''id'' \<and> has_field ex_d ''modified'')) \<and>
   fst (stix_to_collection (ex_env ex_failing) 0 ''Enterprise'' ''14.1'' None
          (ex_state (ex_bundle None [ex_a, ex_b, ex_d, ex_c]))) = Inr PyNone \<and>
   out (snd (stix_to_collection (ex_env ex_failing) 0 ''Enterprise'' ''14.1'' None
          (ex_state (ex_bundle None [ex_a, ex_b, ex_d, ex_c])))) =
     [ErrorVersion (JStr ''[NOT FOUND]''),
      NoteMultipleCreatedBy (JStr ''identity--a'') (JStr ''identity--b''),
      ErrorMissingField ex_d (KeyError ''modified'')]"
proof -
  let ?b = "ex_bundle None [ex_a, ex_b, ex_d, ex_c]"
  let ?s = "ex_state ?b"
  have h: "(0::nat) < nxt ?s"
    "field (heap ?s 0) ''objects'' = Some (JList [ex_a, ex_b, ex_d, ex_c])"
    "list_all non_collection [ex_a, ex_b, ex_d, ex_c]"
    "working_value (ex_env ex_failing) (heap ?s 0) = Inr ?b"
    "field ?b ''objects'' = Some (JList ([ex_a, ex_b] @ ex_d # [ex_c]))"
    "list_all aggregable [ex_a, ex_b]"
    "is_content ex_d"
    "\<not> (has_field ex_d ''id'' \<and> has_field ex_d ''modified'')"
    by (simp_all add: ex_state_def ex_bundle_def field_def non_collection_def is_collection_def
        has_field_def working_value_def spec_version_of_def aggregable_def is_content_def
        is_marking_definition_def markings_iterable_def ex_a_def ex_b_def ex_c_def ex_d_def)
  have d: "out ?s = []" "prelude_diags (heap ?s 0) = [ErrorVersion (JStr ''[NOT FOUND]'')]"
    "conflict_notes (created_by_values [ex_a, ex_b]) =
       [NoteMultipleCreatedBy (JStr ''identity--a'') (JStr ''identity--b'')]"
    "has_field ex_d ''id''"
    by (simp_all add: ex_state_def ex_bundle_def prelude_diags_def spec_version_of_def field_def
        conflict_notes_def created_by_values_def List.map_filter_simps is_content_def
        is_marking_definition_def has_field_def ex_a_def ex_b_def ex_d_def)
  from missing_field_returns_None[OF h, of "''Enterprise''" "''14.1''" None] h
  show ?thesis by (simp add: d)
qed

text \<open>
  The claim as stated, for every bundle without a collection object, fails on a 2.0
  bundle whose one object has no \<^verbatim>\<open>modified\<close>: when the upgrade raises, the object is
  never reached, no diagnostic names it, and the result is not \<^verbatim>\<open>None\<close>; when the
  upgrade supplies the field, a bundle is returned.
\<close>

theorem missing_field_upgrade_failure_counterexample:
  "bundle_objects (ex_bundle (Some ''2.0'') [ex_d]) = [ex_d] \<and>
   \<not> is_collection ex_d \<and> is_content ex_d \<and> \<not> has_field ex_d ''modified'' \<and>
   fst (stix_to_collection (ex_env ex_failing) 0 ''Enterprise'' ''14.1'' None
          (ex_state (ex_bundle (Some ''2.0'') [ex_d]))) = Inl TypeError \<and>
   out (snd (stix_to_collection (ex_env ex_failing) 0 ''Enterprise'' ''14.1'' None
          (ex_state (ex_bundle (Some ''2.0'') [ex_d])))) =
     [NoteUpgrading, ErrorUpgrade (LibraryError ''cannot upgrade'')] \<and>
   fst (stix_to_collection (ex_env ex_repairing) 0 ''Enterprise'' ''14.1'' None
          (ex_state (ex_bundle (Some ''2.0'') [ex_d]))) = Inr (Ref 1) \<and>
   out (snd (stix_to_collection (ex_env ex_repairing) 0 ''Enterprise'' ''14.1'' None
          (ex_state (ex_bundle (Some ''2.0'') [ex_d])))) = [NoteUpgrading, NoteUpgraded]"
proof -
  have "bundle_objects (ex_bundle (Some ''2.0'') [ex_d]) = [ex_d] \<and>
   \<not> is_collection ex_d \<and> is_content ex_d \<and> \<not> has_field ex_d ''modified''"
    by (simp add: bundle_objects_def ex_bundle_def field_def is_collection_def is_content_def
        is_marking_definition_def has_field_def ex_d_def)
  moreover have "fst (stix_to_collection (ex_env ex_failing) 0 ''Enterprise'' ''14.1'' None
          (ex_state (ex_bundle (Some ''2.0'') [ex_d]))) = Inl TypeError"
    by code_simp
  moreover have "out (snd (stix_to_collection (ex_env ex_failing) 0 ''Enterprise'' ''14.1'' None
          (ex_state (ex_bundle (Some ''2.0'') [ex_d])))) =
     [NoteUpgrading, ErrorUpgrade (LibraryError ''cannot upgrade'')]"
    by code_simp
  moreover have "fst (stix_to_collection (ex_env ex_repairing) 0 ''Enterprise'' ''14.1'' None
          (ex_state (ex_bundle (Some ''2.0'') [ex_d]))) = Inr (Ref 1)"
    by code_simp
  moreover have "out (snd (stix_to_collection (ex_env ex_repairing) 0 ''Enterprise'' ''14.1'' None
          (ex_state (ex_bundle (Some ''2.0'') [ex_d])))) = [NoteUpgrading, NoteUpgraded]"
    by code_simp
  ultimately show ?thesis by simp
qed

text \<open>
  Claim C5. When a call on a bundle without a collection object returns a bundle, and
  the marking references of the content objects scanned are strings, the collection
  object's \<^verbatim>\<open>object_marking_refs\<close> is the list of those references in first-seen order
  without duplicates: each reference of a content object occurs exactly once, and
  references that only marking definitions carry do not occur.
\<close>

theorem marking_refs_first_seen_order:
  assumes "bundle < nxt s"
    and "stix_to_collection env bundle name version description s = (Inr (Ref w), s')"
    and "\<not> list_ex is_collection (bundle_objects (heap s bundle))"
    and "working_value env (heap s bundle) = Inr wb"
    and "list_all is_str (concat (map marking_refs (filter is_content (bundle_objects wb))))"
  shows "\<exists>coll refs.
    bundle_objects (heap s' w) = coll # bundle_objects wb \<and>
    is_collection coll \<and>
    field coll ''object_marking_refs'' = Some (JList refs) \<and>
    refs = first_occurrences (concat (map marking_refs (filter is_content (bundle_objects wb)))) \<and>
    distinct refs \<and>
    set refs = (\<Union>obj \<in> {obj \<in> set (bundle_objects wb). is_content obj}. set (marking_refs obj)) \<and>
    (spec_version_of (heap s bundle) \<noteq> JStr ''2.0'' \<longrightarrow> wb = heap s bundle)"
proof -
  from assms(1,2,3) obtain wb' objs where wb': "working_value env (heap s bundle) = Inr wb'"
    and o: "field wb' ''objects'' = Some (JList objs)" and w: "w = nxt s"
    and s': "s' = started bundle
       (with_item wb' ''objects'' (JList (collection_json (built env name version description objs) # objs)))
       (prelude_diags (heap s bundle) @ conflict_notes (created_by_values objs)) s"
    by (rule stix_success)
  from wb' assms(4) have eq: "wb' = wb" by simp
  from o have bo: "bundle_objects wb = objs" by (simp add: bundle_objects_def eq)
  let ?coll = "collection_json (built env name version description objs)"
  let ?all = "concat (map marking_refs (filter is_content objs))"
  have "bundle_objects (heap s' w) = ?coll # bundle_objects wb"
    by (simp add: s' w bo bundle_objects_with_item[OF o])
  moreover have "is_collection ?coll" by (rule is_collection_built)
  moreover have "field ?coll ''object_marking_refs'' = Some (JList (first_occurrences ?all))"
    using assms(5) by (simp add: collection_fields built_fields bo add_markings_first_occurrences)
  moreover have "set (first_occurrences ?all) =
      (\<Union>obj \<in> {obj \<in> set objs. is_content obj}. set (marking_refs obj))"
    by auto
  moreover have "spec_version_of (heap s bundle) \<noteq> JStr ''2.0'' \<longrightarrow> wb = heap s bundle"
    using working_value_same[OF assms(4)] by simp
  ultimately show ?thesis by (auto simp: bo)
qed

text \<open>
  The theorem at a bundle whose content objects carry the references \<open>[m1]\<close>,
  \<open>[m1, m2]\<close>, \<open>[m2]\<close> and whose marking definition carries \<open>[m9]\<close>.
\<close>

theorem marking_refs_first_seen_order_witness:
  "((0::nat) < nxt (ex_state (ex_bundle (Some ''2.1'') [ex_a, ex_m, ex_b, ex_c])) \<and>
    stix_to_collection (ex_env ex_failing) 0 ''Enterprise'' ''14.1'' None
        (ex_state (ex_bundle (Some ''2.1'') [ex_a, ex_m, ex_b, ex_c])) =
      (Inr (Ref 1), snd (stix_to_collection (ex_env ex_failing) 0 ''Enterprise'' ''14.1'' None
        (ex_state (ex_bundle (Some ''2.1'') [ex_a, ex_m, ex_b, ex_c])))) \<and>
    \<not> list_ex is_collection (bundle_objects (ex_bundle (Some ''2.1'') [ex_a, ex_m, ex_b, ex_c])) \<and>
    list_all is_str (concat (map marking_refs (filter is_content [ex_a, ex_m, ex_b, ex_c])))) \<and>
   (\<exists>coll.
      bundle_objects (heap (snd (stix_to_collection (ex_env ex_failing) 0 ''Enterprise'' ''14.1'' None
          (ex_state (ex_bundle (Some ''2.1'') [ex_a, ex_m, ex_b, ex_c])))) 1) =
        [coll, ex_a, ex_m, ex_b, ex_c] \<and>
      field coll ''object_marking_refs'' = Some (JList [JStr ''m1'', JStr ''m2'']))"
proof -
  let ?b = "ex_bundle (Some ''2.1'') [ex_a, ex_m, ex_b, ex_c]"
  let ?s = "ex_state ?b"
  have r: "fst (stix_to_collection (ex_env ex_failing) 0 ''Enterprise'' ''14.1'' None ?s) = Inr (Ref 1)"
    by code_simp
  have bo: "bundle_objects ?b = [ex_a, ex_m, ex_b, ex_c]"
    by (simp add: bundle_objects_def ex_bundle_def field_def)
  have refs: "concat (map marking_refs (filter is_content [ex_a, ex_m, ex_b, ex_c])) =
      [JStr ''m1'', JStr ''m1'', JStr ''m2'', JStr ''m2'']"
    by (simp add: marking_refs_def is_content_def is_marking_definition_def has_field_def field_def
        ex_a_def ex_m_def ex_b_def ex_c_def)
  have hs: "heap ?s 0 = ?b" by (simp add: ex_state_def)
  have nc: "\<not> list_ex is_collection [ex_a, ex_m, ex_b, ex_c]"
    by (simp add: is_collection_def field_def ex_a_def ex_m_def ex_b_def ex_c_def)
  have h1: "(0::nat) < nxt ?s" by (simp add: ex_state_def)
  have h2: "stix_to_collection (ex_env ex_failing) 0 ''Enterprise'' ''14.1'' None ?s =
      (Inr (Ref 1), snd (stix_to_collection (ex_env ex_failing) 0 ''Enterprise'' ''14.1'' None ?s))"
    using r by (simp add: prod_eq_iff)
  have h3: "\<not> list_ex is_collection (bundle_objects (heap ?s 0))"
    unfolding hs bo by (rule nc)
  have h4: "working_value (ex_env ex_failing) (heap ?s 0) = Inr ?b"
    unfolding hs by (simp add: working_value_def spec_version_of_def ex_bundle_def field_def)
  have h5: "list_all is_str (concat (map marking_refs (filter is_content (bundle_objects ?b))))"
    unfolding bo refs by (simp add: is_str_def)
  note h = h1 h2 h3 h4 h5
  from marking_refs_first_seen_order[OF h] h2 h1 nc h5
  show ?thesis unfolding hs bo refs by auto
qed

text \<open>
  Claim C6. When a call on a bundle without a collection object returns a bundle, the
  collection object's \<^verbatim>\<open>created_by_ref\<close> is the first value other than the empty string
  among the \<^verbatim>\<open>created_by_ref\<close> values of the content objects scanned, or the empty
  string when there is none; one note is printed for each later value that differs from
  it, and the scan goes on: every content object has its entry in \<^verbatim>\<open>x_mitre_contents\<close>.
\<close>

theorem created_by_ref_first_seen_wins:
  assumes "bundle < nxt s"
    and "stix_to_collection env bundle name version description s = (Inr (Ref w), s')"
    and "\<not> list_ex is_collection (bundle_objects (heap s bundle))"
    and "working_value env (heap s bundle) = Inr wb"
  shows "\<exists>coll entries.
    bundle_objects (heap s' w) = coll # bundle_objects wb \<and>
    is_collection coll \<and>
    field coll ''created_by_ref'' = Some (first_author (created_by_values (bundle_objects wb))) \<and>
    out s' = out s @ prelude_diags (heap s bundle) @
               conflict_notes (created_by_values (bundle_objects wb)) \<and>
    field coll ''x_mitre_contents'' = Some (JList entries) \<and>
    map Some entries = map contents_entry (filter is_content (bundle_objects wb)) \<and>
    (spec_version_of (heap s bundle) \<noteq> JStr ''2.0'' \<longrightarrow> wb = heap s bundle)"
proof -
  from assms(1,2,3) obtain wb' objs where wb': "working_value env (heap s bundle) = Inr wb'"
    and o: "field wb' ''objects'' = Some (JList objs)" and ok: "list_all aggregable objs"
    and w: "w = nxt s"
    and s': "s' = started bundle
       (with_item wb' ''objects'' (JList (collection_json (built env name version description objs) # objs)))
       (prelude_diags (heap s bundle) @ conflict_notes (created_by_values objs)) s"
    by (rule stix_success)
  from wb' assms(4) have eq: "wb' = wb" by simp
  from o have bo: "bundle_objects wb = objs" by (simp add: bundle_objects_def eq)
  let ?coll = "collection_json (built env name version description objs)"
  have "bundle_objects (heap s' w) = ?coll # bundle_objects wb"
    by (simp add: s' w bo bundle_objects_with_item[OF o])
  moreover have "is_collection ?coll" by (rule is_collection_built)
  moreover have "field ?coll ''created_by_ref'' = Some (first_author (created_by_values objs))"
    by (simp add: collection_fields built_fields)
  moreover have "out s' = out s @ prelude_diags (heap s bundle) @ conflict_notes (created_by_values objs)"
    by (simp add: s')
  moreover have "field ?coll ''x_mitre_contents'' =
      Some (JList (map (\<lambda>obj. the (contents_entry obj)) (filter is_content objs)))"
    by (simp add: collection_fields built_fields)
  moreover note entries_of_aggregable[OF ok]
  moreover have "spec_version_of (heap s bundle) \<noteq> JStr ''2.0'' \<longrightarrow> wb = heap s bundle"
    using working_value_same[OF assms(4)] by simp
  ultimately show ?thesis by (auto simp: bo)
qed

text \<open>
  The theorem at a bundle whose content objects carry no author, then \<open>identity--a\<close>,
  \<open>identity--b\<close> and \<open>identity--a\<close> again.
\<close>

theorem created_by_ref_first_seen_wins_witness:
  "((0::nat) < nxt (ex_state (ex_bundle (Some ''2.1'') [ex_c, ex_m, ex_a, ex_b, ex_a])) \<and>
    stix_to_collection (ex_env ex_failing) 0 ''Enterprise'' ''14.1'' None
        (ex_state (ex_bundle (Some ''2.1'') [ex_c, ex_m, ex_a, ex_b, ex_a])) =
      (Inr (Ref 1), snd (stix_to_collection (ex_env ex_failing) 0 ''Enterprise'' ''14.1'' None
        (ex_state (ex_bundle (Some ''2.1'') [ex_c, ex_m, ex_a, ex_b, ex_a])))) \<and>
    \<not> list_ex is_collection (bundle_objects (ex_bundle (Some ''2.1'') [ex_c, ex_m, ex_a, ex_b, ex_a]))) \<and>
   (\<exists>coll.
      bundle_objects (heap (snd (stix_to_collection (ex_env ex_failing) 0 ''Enterprise'' ''14.1'' None
          (ex_state (ex_bundle (Some ''2.1'') [ex_c, ex_m, ex_a, ex_b, ex_a])))) 1) =
        [coll, ex_c, ex_m, ex_a, ex_b, ex_a] \<and>
      field coll ''created_by_ref'' = Some (JStr ''identity--a'')) \<and>
   out (snd (stix_to_collection (ex_env ex_failing) 0 ''Enterprise'' ''14.1'' None
          (ex_state (ex_bundle (Some ''2.1'') [ex_c, ex_m, ex_a, ex_b, ex_a])))) =
     [NoteMultipleCreatedBy (JStr ''identity--a'') (JStr ''identity--b'')]"
proof -
  let ?b = "ex_bundle (Some ''2.1'') [ex_c, ex_m, ex_a, ex_b, ex_a]"
  let ?s = "ex_state ?b"
  have r: "fst (stix_to_collection (ex_env ex_failing) 0 ''Enterprise'' ''14.1'' None ?s) = Inr (Ref 1)"
    by code_simp
  have bo: "bundle_objects ?b = [ex_c, ex_m, ex_a, ex_b, ex_a]"
    by (simp add: bundle_objects_def ex_bundle_def field_def)
  have vs: "created_by_values [ex_c, ex_m, ex_a, ex_b, ex_a] =
      [JStr ''identity--a'', JStr ''identity--b'', JStr ''identity--a'']"
    by (simp add: created_by_values_def List.map_filter_simps is_content_def
        is_marking_definition_def has_field_def field_def ex_a_def ex_m_def ex_b_def ex_c_def)
  have d: "prelude_diags ?b = []" "out ?s = []"
    by (simp_all add: prelude_diags_def spec_version_of_def ex_bundle_def field_def ex_state_def)
  have hs: "heap ?s 0 = ?b" by (simp add: ex_state_def)
  have nc: "\<not> list_ex is_collection [ex_c, ex_m, ex_a, ex_b, ex_a]"
    by (simp add: is_collection_def field_def ex_a_def ex_m_def ex_b_def ex_c_def)
  have h1: "(0::nat) < nxt ?s" by (simp add: ex_state_def)
  have h2: "stix_to_collection (ex_env ex_failing) 0 ''Enterprise'' ''14.1'' None ?s =
      (Inr (Ref 1), snd (stix_to_collection (ex_env ex_failing) 0 ''Enterprise'' ''14.1'' None ?s))"
    using r by (simp add: prod_eq_iff)
  have h3: "\<not> list_ex is_collection (bundle_objects (heap ?s 0))"
    unfolding hs bo by (rule nc)
  have h4: "working_value (ex_env ex_failing) (heap ?s 0) = Inr ?b"
    unfolding hs by (simp add: working_value_def spec_version_of_def ex_bundle_def field_def)
  have fa: "first_author [JStr ''identity--a'', JStr ''identity--b'', JStr ''identity--a''] =
      JStr ''identity--a''"
    "conflict_notes [JStr ''identity--a'', JStr ''identity--b'', JStr ''identity--a''] =
      [NoteMultipleCreatedBy (JStr ''identity--a'') (JStr ''identity--b'')]"
    by (simp_all add: first_author_def conflict_notes_def)
  note h = h1 h2 h3 h4
  from created_by_ref_first_seen_wins[OF h] h
  show ?thesis by (auto simp: bo vs d hs first_author_def conflict_notes_def)
qed

text \<open>
  Claim C7, at a failing input. The bundle has \<^verbatim>\<open>spec_version\<close> 2.0 and no collection
  object, and the elevator raises. The handler prints the cause and then calls
  \<^verbatim>\<open>traceback.print_exc(e)\<close>, which raises \<^verbatim>\<open>TypeError\<close>: the \<^verbatim>\<open>return None\<close> of
  line 53 is not reached, and the call ends with an exception instead of \<^verbatim>\<open>None\<close>.
\<close>

theorem upgrade_failure_escapes_as_TypeError:
  "spec_version_of (ex_bundle (Some ''2.0'') [ex_a, ex_m, ex_b]) = JStr ''2.0'' \<and>
   bundle_objects (ex_bundle (Some ''2.0'') [ex_a, ex_m, ex_b]) = [ex_a, ex_m, ex_b] \<and>
   list_all non_collection [ex_a, ex_m, ex_b] \<and>
   step_bundle (ex_env ex_failing) (ex_bundle (Some ''2.0'') [ex_a, ex_m, ex_b]) =
     Inl (LibraryError ''cannot upgrade'') \<and>
   fst (stix_to_collection (ex_env ex_failing) 0 ''Enterprise'' ''14.1'' None
          (ex_state (ex_bundle (Some ''2.0'') [ex_a, ex_m, ex_b]))) = Inl TypeError \<and>
   out (snd (stix_to_collection (ex_env ex_failing) 0 ''Enterprise'' ''14.1'' None
          (ex_state (ex_bundle (Some ''2.0'') [ex_a, ex_m, ex_b])))) =
     [NoteUpgrading, ErrorUpgrade (LibraryError ''cannot upgrade'')]"
proof -
  let ?b = "ex_bundle (Some ''2.0'') [ex_a, ex_m, ex_b]"
  have "spec_version_of ?b = JStr ''2.0'' \<and> bundle_objects ?b = [ex_a, ex_m, ex_b] \<and>
     list_all non_collection [ex_a, ex_m, ex_b] \<and>
     step_bundle (ex_env ex_failing) ?b = Inl (LibraryError ''cannot upgrade'')"
    by (simp add: spec_version_of_def bundle_objects_def ex_bundle_def field_def non_collection_def
        is_collection_def has_field_def ex_env_def ex_failing_def ex_a_def ex_m_def ex_b_def)
  moreover have "fst (stix_to_collection (ex_env ex_failing) 0 ''Enterprise'' ''14.1'' None (ex_state ?b)) =
      Inl TypeError"
    by code_simp
  moreover have "out (snd (stix_to_collection (ex_env ex_failing) 0 ''Enterprise'' ''14.1'' None (ex_state ?b))) =
     [NoteUpgrading, ErrorUpgrade (LibraryError ''cannot upgrade'')]"
    by code_simp
  ultimately show ?thesis by simp
qed



text \<open>
  Claim C9, at a failing input. On a host whose wall clock is two hours ahead of UTC,
  \<^verbatim>\<open>created\<close> and \<^verbatim>\<open>modified\<close> of the collection object are equal and have the fixed
  format, but they are the local wall-clock time followed by \<^verbatim>\<open>Z\<close>, not the UTC time.
\<close>

theorem timestamp_is_local_wall_clock:
  "utc_time (host_clock (ex_env Inr)) \<noteq> local_time (host_clock (ex_env Inr)) \<and>
   strftime (utc_time (host_clock (ex_env Inr))) = ''2024-03-09T10:04:05.000678Z'' \<and>
   fst (stix_to_collection (ex_env Inr) 0 ''Enterprise'' ''14.1'' None
          (ex_state (ex_bundle (Some ''2.1'') [ex_a]))) = Inr (Ref 1) \<and>
   field (hd (bundle_objects (heap (snd (stix_to_collection (ex_env Inr) 0 ''Enterprise'' ''14.1'' None
          (ex_state (ex_bundle (Some ''2.1'') [ex_a])))) 1))) ''created'' =
     Some (JStr ''2024-03-09T12:04:05.000678Z'') \<and>
   field (hd (bundle_objects (heap (snd (stix_to_collection (ex_env Inr) 0 ''Enterprise'' ''14.1'' None
          (ex_state (ex_bundle (Some ''2.1'') [ex_a])))) 1))) ''modified'' =
     Some (JStr ''2024-03-09T12:04:05.000678Z'')"
proof -
  have "utc_time (host_clock (ex_env Inr)) \<noteq> local_time (host_clock (ex_env Inr))"
    by (simp add: ex_env_def ex_clock_def)
  moreover have "strftime (utc_time (host_clock (ex_env Inr))) = ''2024-03-09T10:04:05.000678Z''"
    by code_simp
  moreover have "fst (stix_to_collection (ex_env Inr) 0 ''Enterprise'' ''14.1'' None
          (ex_state (ex_bundle (Some ''2.1'') [ex_a]))) = Inr (Ref 1)"
    by code_simp
  moreover have "field (hd (bundle_objects (heap (snd (stix_to_collection (ex_env Inr) 0 ''Enterprise'' ''14.1'' None
          (ex_state (ex_bundle (Some ''2.1'') [ex_a])))) 1))) ''created'' =
     Some (JStr ''2024-03-09T12:04:05.000678Z'')"
    by code_simp
  moreover have "field (hd (bundle_objects (heap (snd (stix_to_collection (ex_env Inr) 0 ''Enterprise'' ''14.1'' None
          (ex_state (ex_bundle (Some ''2.1'') [ex_a])))) 1))) ''modified'' =
     Some (JStr ''2024-03-09T12:04:05.000678Z'')"
    by code_simp
  ultimately show ?thesis by simp
qed

text \<open>
  Claim C10, as amended. When an object without a \<^verbatim>\<open>type\<close> field comes before any
  collection object (the objects before it having a type), the scan of lines 30 to 32
  raises \<^verbatim>\<open>KeyError('type')\<close>: the call returns neither a bundle nor \<^verbatim>\<open>None\<close>, and
  prints nothing. The body of the aggregation loop raises the same error on such an
  object, while a content object without \<^verbatim>\<open>id\<close> or \<^verbatim>\<open>modified\<close> makes it leave
  with \<^verbatim>\<open>None\<close>.
\<close>

theorem missing_type_raises_KeyError:
  assumes "bundle < nxt s"
    and "field (heap s bundle) ''objects'' = Some (JList (pre @ obj # post))"
    and "list_all non_collection pre"
    and "is_object obj" and "\<not> has_field obj ''type''"
  shows "fst (stix_to_collection env bundle name version description s) = Inl (KeyError ''type'') \<and>
         heap (snd (stix_to_collection env bundle name version description s)) bundle = heap s bundle \<and>
         out (snd (stix_to_collection env bundle name version description s)) = out s \<and>
         aggregate_body obj raw t = (Uncaught (KeyError ''type''), t) \<and>
         (is_content obj' \<and> \<not> (has_field obj' ''id'' \<and> has_field obj' ''modified'') \<longrightarrow>
            fst (aggregate_body obj' raw t) = ReturnNone)"
proof -
  from assms(1) have ne: "bundle \<noteq> nxt s" by simp
  from assms(4) obtain kvs where obj: "obj = JDict kvs" by (cases obj) (simp_all add: is_object_def)
  with assms(5) have ty: "map_of kvs ''type'' = None"
    by (simp add: has_field_def field_def split: option.splits)
  from assms(2) have g: "py_getitem (heap s bundle) ''objects'' = Inr (JList (pre @ obj # post))"
    by (simp add: field_simps)
  have hu: "has_collection (obj # post) = Inl (KeyError ''type'')"
    unfolding has_collection_Cons_untyped[OF assms(5)] by (simp add: obj)
  have hc: "has_collection (pre @ obj # post) = Inl (KeyError ''type'')"
    unfolding has_collection_prefix[OF assms(3)] by (rule hu)
  have r: "stix_to_collection env bundle name version description s = (Inl (KeyError ''type''), copied bundle s)"
    by (simp add: stix_cases[OF ne] g hc del: has_collection.simps(2))
  have b: "aggregate_body obj raw t = (Uncaught (KeyError ''type''), t)"
    by (simp add: aggregate_body_def obj ty)
  have c: "is_content obj' \<and> \<not> (has_field obj' ''id'' \<and> has_field obj' ''modified'') \<longrightarrow>
            fst (aggregate_body obj' raw t) = ReturnNone"
    using aggregate_body_missing[of obj' raw t] by auto
  show ?thesis using b c by (simp add: r copied_def)
qed

text \<open>
  The theorem at a bundle whose second object has no type and whose third object is a
  collection object.
\<close>

theorem missing_type_raises_KeyError_witness:
  "((0::nat) < nxt (ex_state (ex_bundle (Some ''2.1'') [ex_a, ex_u, ex_x])) \<and>
    field (heap (ex_state (ex_bundle (Some ''2.1'') [ex_a, ex_u, ex_x])) 0) ''objects'' =
      Some (JList ([ex_a] @ ex_u # [ex_x])) \<and>
    list_all non_collection [ex_a] \<and> is_object ex_u \<and> \<not> has_field ex_u ''type'' \<and>
    is_content ex_d \<and> \<not> (has_field ex_d ''id'' \<and> has_field ex_d ''modified'')) \<and>
   fst (stix_to_collection (ex_env Inr) 0 ''Enterprise'' ''14.1'' None
          (ex_state (ex_bundle (Some ''2.1'') [ex_a, ex_u, ex_x]))) = Inl (KeyError ''type'') \<and>
   fst (aggregate_body ex_d (new_collection (ex_env Inr) ''Enterprise'' ''14.1'' None)
          (ex_state JNull)) = ReturnNone"
proof -
  let ?s = "ex_state (ex_bundle (Some ''2.1'') [ex_a, ex_u, ex_x])"
  have h: "(0::nat) < nxt ?s"
    "field (heap ?s 0) ''objects'' = Some (JList ([ex_a] @ ex_u # [ex_x]))"
    "list_all non_collection [ex_a]" "is_object ex_u" "\<not> has_field ex_u ''type''"
    by (simp_all add: ex_state_def ex_bundle_def field_def non_collection_def is_collection_def
        has_field_def is_object_def ex_a_def ex_u_def)
  have d: "is_content ex_d \<and> \<not> (has_field ex_d ''id'' \<and> has_field ex_d ''modified'')"
    by (simp add: is_content_def is_marking_definition_def has_field_def field_def ex_d_def)
  from missing_type_raises_KeyError[OF h, where env = "ex_env Inr" and name = "''Enterprise''"
      and version = "''14.1''" and description = None and obj' = ex_d
      and raw = "new_collection (ex_env Inr) ''Enterprise'' ''14.1'' None" and t = "ex_state JNull"]
    h d
  show ?thesis by simp
qed

text \<open>
  The claim as stated, for every bundle with an object without a type, fails: when a
  collection object comes first, the original bundle is returned.
\<close>

theorem missing_type_after_collection_counterexample:
  "is_object ex_u \<and> \<not> has_field ex_u ''type'' \<and>
   bundle_objects (ex_bundle (Some ''2.1'') [ex_x, ex_u]) = [ex_x, ex_u] \<and>
   fst (stix_to_collection (ex_env Inr) 0 ''Enterprise'' ''14.1'' None
          (ex_state (ex_bundle (Some ''2.1'') [ex_x, ex_u]))) = Inr (Ref 0)"
proof -
  have "is_object ex_u \<and> \<not> has_field ex_u ''type'' \<and>
     bundle_objects (ex_bundle (Some ''2.1'') [ex_x, ex_u]) = [ex_x, ex_u]"
    by (simp add: is_object_def has_field_def field_def ex_u_def bundle_objects_def ex_bundle_def)
  moreover have "fst (stix_to_collection (ex_env Inr) 0 ''Enterprise'' ''14.1'' None
          (ex_state (ex_bundle (Some ''2.1'') [ex_x, ex_u]))) = Inr (Ref 0)"
    by code_simp
  ultimately show ?thesis by simp
qed

end
